theory Spec2Isabelle
  imports Main "HOL-Library.AList"
begin

section \<open>Character classes and the regular expressions of the line predicates\<close>

text \<open>
  The parser is Python 2 code working on byte strings; a line is modelled as a
  \<^typ>\<open>string\<close>.  The classes are those of Python's \<open>re\<close> module without the
  LOCALE and UNICODE flags: \<open>\s\<close> is \<open>[ \t\n\r\f\v]\<close>, \<open>\d\<close> is \<open>[0-9]\<close>,
  \<open>\w\<close> is \<open>[a-zA-Z0-9_]\<close>.
\<close>

definition is_space :: "char \<Rightarrow> bool" where
  "is_space c = (c = CHR '' '' \<or> c = CHR 0x09 \<or> c = CHR 0x0A \<or> c = CHR 0x0B
                 \<or> c = CHR 0x0C \<or> c = CHR 0x0D)"

definition is_lower :: "char \<Rightarrow> bool" where
  "is_lower c = (let n = (of_char c :: nat) in 97 \<le> n \<and> n \<le> 122)"

definition is_upper :: "char \<Rightarrow> bool" where
  "is_upper c = (let n = (of_char c :: nat) in 65 \<le> n \<and> n \<le> 90)"

definition is_digit :: "char \<Rightarrow> bool" where
  "is_digit c = (let n = (of_char c :: nat) in 48 \<le> n \<and> n \<le> 57)"

definition is_word :: "char \<Rightarrow> bool" where
  "is_word c = (is_lower c \<or> is_upper c \<or> is_digit c \<or> c = CHR ''_'')"

definition not_lower :: "char \<Rightarrow> bool" where
  "not_lower c = (\<not> is_lower c)"

definition not_space :: "char \<Rightarrow> bool" where
  "not_space c = (\<not> is_space c)"

definition not_space_lower :: "char \<Rightarrow> bool" where
  "not_space_lower c = (\<not> is_space c \<and> \<not> is_lower c)"

text \<open>
  The fragment of regular expressions that the source uses: literals, classes,
  a greedy star on a class, an optional group and concatenation.
  \<open>residuals r s\<close> lists what is left of \<open>s\<close> after each way of matching \<open>r\<close> at the
  start of \<open>s\<close>, in the order in which Python's backtracking matcher tries them
  (greedy first).
\<close>

datatype rx = Eps | Lit char | Cls "char \<Rightarrow> bool" | Star "char \<Rightarrow> bool" | Cat rx rx | Opt rx

fun star_residuals :: "(char \<Rightarrow> bool) \<Rightarrow> string \<Rightarrow> string list" where
  "star_residuals p [] = [[]]"
| "star_residuals p (c # t) = (if p c then star_residuals p t else []) @ [c # t]"

fun residuals :: "rx \<Rightarrow> string \<Rightarrow> string list" where
  "residuals Eps s = [s]"
| "residuals (Lit c) s = (case s of [] \<Rightarrow> [] | d # t \<Rightarrow> if d = c then [t] else [])"
| "residuals (Cls p) s = (case s of [] \<Rightarrow> [] | d # t \<Rightarrow> if p d then [t] else [])"
| "residuals (Star p) s = star_residuals p s"
| "residuals (Cat r1 r2) s = concat (map (residuals r2) (residuals r1 s))"
| "residuals (Opt r) s = residuals r s @ [s]"

definition Plus :: "(char \<Rightarrow> bool) \<Rightarrow> rx" where
  "Plus p = Cat (Cls p) (Star p)"

definition lits :: "string \<Rightarrow> rx" where
  "lits l = foldr (\<lambda>c r. Cat (Lit c) r) l Eps"

definition seq :: "rx list \<Rightarrow> rx" where
  "seq rs = foldr Cat rs Eps"

text \<open>
  \<open>re.search(r'^R$', s)\<close>: without the MULTILINE flag \<open>^\<close> matches at the start only
  and \<open>$\<close> at the end of the string or just before a newline that ends it.
\<close>

definition at_eos :: "string \<Rightarrow> bool" where
  "at_eos s = (s = [] \<or> s = [CHR 0x0A])"

definition search_anchored :: "rx \<Rightarrow> string \<Rightarrow> bool" where
  "search_anchored r s = list_ex at_eos (residuals r s)"

text \<open>\<open>re.search(r'^R', s)\<close> and \<open>re.match(r'^R', s)\<close>.\<close>

definition match_prefix :: "rx \<Rightarrow> string \<Rightarrow> bool" where
  "match_prefix r s = (residuals r s \<noteq> [])"

text \<open>\<open>s.startswith(p)\<close>.\<close>

definition startswith :: "string \<Rightarrow> string \<Rightarrow> bool" where
  "startswith s p = (take (length p) s = p)"

section \<open>Parser modes, parser states\<close>

text \<open>
  The constants \<open>STRICT\<close>, \<open>FUZZY\<close> and \<open>mode\<close>, and the parser states, are imported by
  the source from \<open>tsl.script.parse.const\<close>.  The states are an enumeration; \<open>mode\<close> is
  a parameter of every function that reads it.
\<close>

datatype parse_mode = STRICT | FUZZY

datatype ltype = ACTION | CONTINUED | DIALOG | DIALOG_HEADER | DIRECTION | EMPTY | ERROR
  | FRONT | PAGE_NUM | RESUMED | SCENE_HEADING

text \<open>The messages that the source prints.\<close>

datatype diag =
    EmptyAfterDialogHeader
  | DirectionMustFollowEmpty
  | SceneHeadingMustFollowEmptyOrFront
  | ActionMustFollowEmptyOrAction
  | DialogHeaderMustFollowEmptyOrDialog
  | DialogMustFollowHeaderOrDialog
  | UnhandledLineType string
  | ParseError int int string ltype ltype
  | HeadingNamesCharacter string
  | CharacterInLocationContext
  | EmptyCharacterName int
  | PositionNotFound int "(nat \<times> int) list"

section \<open>The line predicates\<close>

definition is_empty_line :: "string \<Rightarrow> bool" where
  "is_empty_line line = search_anchored (Star is_space) line"

definition is_scene_header :: "parse_mode \<Rightarrow> string \<Rightarrow> bool" where
  "is_scene_header mode line =
     (case mode of
        STRICT \<Rightarrow>
          search_anchored (seq [Cls not_space_lower, Plus not_lower]) line
          \<and> (startswith line ''INTERIOR'' \<or> startswith line ''EXTERIOR''
               \<or> startswith line ''INT.'' \<or> startswith line ''EXT.'')
      | FUZZY \<Rightarrow>
          search_anchored (seq [Cls not_space_lower, Plus not_lower]) line
          \<and> list_ex is_word line)"

definition is_start_continue :: "string \<Rightarrow> bool" where
  "is_start_continue line =
     search_anchored (seq [Star is_space, Lit CHR ''('', Star is_space, lits ''CONTINUED'',
                           Star is_space, Lit CHR '')'', Star is_space]) line"

definition is_end_continue :: "string \<Rightarrow> bool" where
  "is_end_continue line =
     (if search_anchored (seq [Star is_space, lits ''CONTINUED:'', Star is_space,
                               Opt (seq [Lit CHR ''('', Plus is_digit, Lit CHR '')'']),
                               Star is_space]) line
      then True
      else if search_anchored (seq [Star is_space, lits ''CONTINUED:'', Star is_space,
                                    Opt (Plus is_digit), Star is_space]) line
      then True
      else False)"

definition is_page_num :: "string \<Rightarrow> bool" where
  "is_page_num line =
     search_anchored (seq [Plus is_space, Plus is_digit, Opt (Lit CHR ''.'')]) line"

definition is_direction :: "string \<Rightarrow> bool" where
  "is_direction line =
     search_anchored (seq [Plus is_space, Plus not_lower, Lit CHR '':'']) line"

definition is_action :: "string \<Rightarrow> bool" where
  "is_action line = match_prefix (Cls not_space) line"

definition is_dialog_header :: "string \<Rightarrow> bool" where
  "is_dialog_header line = search_anchored (seq [Plus is_space, Plus not_lower]) line"

definition is_dialog :: "string \<Rightarrow> bool" where
  "is_dialog line = (if match_prefix (Cls not_space) line then False else True)"

section \<open>The line classifier\<close>

text \<open>
  \<open>next_line\<close> is \<open>False\<close> on the last line and the next line's content otherwise;
  \<open>next_line and f(next_line)\<close> is false for \<open>False\<close> and for the empty string.
\<close>

definition next_and :: "string option \<Rightarrow> (string \<Rightarrow> bool) \<Rightarrow> bool" where
  "next_and next_line f = (case next_line of None \<Rightarrow> False | Some s \<Rightarrow> s \<noteq> [] \<and> f s)"

definition get_types ::
  "parse_mode \<Rightarrow> string \<Rightarrow> string option \<Rightarrow> ltype \<times> ltype \<Rightarrow> (ltype \<times> ltype) \<times> diag list"
where
  "get_types mode line next_line prior_types =
    (let prior_block_type = fst prior_types; prior_line_type = snd prior_types in
     if prior_block_type = FRONT \<and> \<not> is_scene_header mode line then
       (if is_empty_line line then ((FRONT, EMPTY), []) else ((FRONT, FRONT), []))
     else if is_start_continue line then ((prior_block_type, CONTINUED), [])
     else if prior_line_type = CONTINUED then
       (if is_end_continue line then ((prior_block_type, RESUMED), [])
        else ((prior_block_type, CONTINUED), []))
     else if is_page_num line then ((PAGE_NUM, PAGE_NUM), [])
     else if is_empty_line line then
       (if prior_block_type = DIALOG \<and> prior_line_type = DIALOG_HEADER then
          ((ERROR, EMPTY), [EmptyAfterDialogHeader])
        else if prior_block_type = DIALOG \<and> prior_line_type = DIALOG
                \<and> next_and next_line is_dialog_header then ((DIALOG, EMPTY), [])
        else if prior_block_type = DIALOG \<and> prior_line_type = RESUMED then ((DIALOG, EMPTY), [])
        else ((EMPTY, EMPTY), []))
     else if is_direction line then
       (if prior_line_type \<noteq> EMPTY then ((ERROR, DIRECTION), [DirectionMustFollowEmpty])
        else ((DIRECTION, DIRECTION), []))
     else if is_scene_header mode line then
       (if next_and next_line is_action \<or> prior_block_type = ACTION then ((ACTION, ACTION), [])
        else if prior_block_type \<in> {EMPTY, FRONT} \<or> prior_line_type = EMPTY then
          ((SCENE_HEADING, SCENE_HEADING), [])
        else ((ERROR, SCENE_HEADING), [SceneHeadingMustFollowEmptyOrFront]))
     else if is_action line then
       (if prior_block_type \<in> {EMPTY, ACTION} \<or> prior_line_type = EMPTY then
          ((ACTION, ACTION), [])
        else ((ERROR, ACTION), [ActionMustFollowEmptyOrAction]))
     else if is_dialog_header line then
       (if prior_line_type \<in> {DIALOG, DIALOG_HEADER} then ((DIALOG, DIALOG), [])
        else if prior_block_type \<in> {EMPTY, DIALOG} \<and> prior_line_type = EMPTY then
          ((DIALOG, DIALOG_HEADER), [])
        else ((ERROR, DIALOG_HEADER), [DialogHeaderMustFollowEmptyOrDialog]))
     else if is_dialog line then
       (if prior_block_type = DIALOG \<and> prior_line_type \<in> {DIALOG_HEADER, DIALOG} then
          ((DIALOG, DIALOG), [])
        else ((ERROR, DIALOG), [DialogMustFollowHeaderOrDialog]))
     else ((ERROR, ERROR), [UnhandledLineType line]))"

section \<open>Python lists and errors\<close>

datatype py_error = KeyError | IndexError | TypeError

text \<open>\<open>xs[i]\<close>: a negative index counts from the end, an index out of range raises.\<close>

definition py_index :: "'a list \<Rightarrow> int \<Rightarrow> py_error + 'a" where
  "py_index xs i =
     (let n = int (length xs); j = (if i < 0 then i + n else i)
      in if 0 \<le> j \<and> j < n then Inr (xs ! nat j) else Inl IndexError)"

text \<open>\<open>xs[i:j]\<close>: negative bounds count from the end, then both are clamped.\<close>

definition py_slice :: "'a list \<Rightarrow> int \<Rightarrow> int \<Rightarrow> 'a list" where
  "py_slice xs i j =
     (let n = int (length xs);
          i' = (if i < 0 then max 0 (i + n) else min i n);
          j' = (if j < 0 then max 0 (j + n) else min j n)
      in take (nat (j' - i')) (drop (nat i') xs))"

text \<open>\<open>len(s.split())\<close>: the number of maximal runs of non-whitespace characters.\<close>

fun count_words :: "bool \<Rightarrow> string \<Rightarrow> nat" where
  "count_words in_word [] = 0"
| "count_words in_word (c # t) =
     (if is_space c then count_words False t
      else (if in_word then 0 else 1) + count_words True t)"

definition word_count :: "string \<Rightarrow> nat" where
  "word_count s = count_words False s"

text \<open>\<open>text.split('\n')\<close>: one piece more than there are newlines.\<close>

fun split_nl :: "string \<Rightarrow> string list" where
  "split_nl [] = [[]]"
| "split_nl (c # t) =
     (if c = CHR 0x0A then [] # split_nl t
      else (case split_nl t of [] \<Rightarrow> [[c]] | h # r \<Rightarrow> (c # h) # r))"

section \<open>The offset mapper\<close>

fun line_offsets_loop :: "nat \<Rightarrow> int \<Rightarrow> nat \<Rightarrow> string list \<Rightarrow> (nat \<times> int) list" where
  "line_offsets_loop total_offset first_line line_no [] = []"
| "line_offsets_loop total_offset first_line line_no (line # rest) =
     (let total_offset = total_offset + (length line + 1)
      in (total_offset, first_line + int line_no)
           # line_offsets_loop total_offset first_line (Suc line_no) rest)"

text \<open>
  \<open>result.pop()\<close> drops the last entry; \<open>split\<close> returns at least one piece, so the
  list it is applied to is never empty.
\<close>

definition get_line_offsets :: "string \<Rightarrow> int \<Rightarrow> (nat \<times> int) list" where
  "get_line_offsets text first_line = butlast (line_offsets_loop 0 first_line 0 (split_nl text))"

fun first_line_after :: "(nat \<times> int) list \<Rightarrow> nat \<Rightarrow> int option" where
  "first_line_after [] pos = None"
| "first_line_after ((total_offset, line_no) # rest) pos =
     (if total_offset > pos then Some line_no else first_line_after rest pos)"

text \<open>
  The result is the messages printed and the value returned or the exception raised:
  when the loop finds no entry, the message is printed and \<open>line_offsets[0][1]\<close> is read.
\<close>

definition get_line_for_offset :: "(nat \<times> int) list \<Rightarrow> nat \<Rightarrow> diag list \<times> (py_error + int)" where
  "get_line_for_offset line_offsets pos =
     (case first_line_after line_offsets pos of
        Some line_no \<Rightarrow> ([], Inr line_no)
      | None \<Rightarrow>
          ([PositionNotFound (int pos) line_offsets],
           case py_index line_offsets 0 of Inl e \<Rightarrow> Inl e | Inr entry \<Rightarrow> Inr (snd entry)))"

section \<open>Nouns, presences and interactions\<close>

datatype noun_type = CHARACTER | THING | LOCATION

datatype itype = SETTING | DISCUSS | MENTION | APPEAR

text \<open>
  A scene id is the key \<open>str(scene_number)\<close> of the scene; the model keeps the number.
  A presence is a dictionary with the keys \<open>name\<close>, \<open>noun_type\<close>, \<open>presence_type\<close> and
  \<open>where\<close>, and \<open>dialog_words\<close> once the last pass has set it.
\<close>

record where_rec =
  w_scene_id :: nat
  w_page_no :: int
  w_line_no :: int

record presence =
  p_name :: string
  p_noun_type :: noun_type
  p_presence_type :: itype
  p_where :: where_rec
  p_dialog_words :: "nat option"

text \<open>
  The first participant of an interaction can be the scene location, which is the empty
  dictionary \<open>{}\<close> until a heading has set it: \<open>None\<close> stands for \<open>{}\<close>.
\<close>

record interaction =
  i_a :: "presence option"
  i_b :: presence
  i_where :: where_rec
  i_type :: itype

text \<open>
  Dictionaries are association lists with unique keys, read with \<^const>\<open>map_of\<close> and
  written with \<^const>\<open>AList.update\<close>.  The entry \<open>presence_ns[name]\<close> holds the
  authoritative noun type under the key \<open>'noun_type'\<close> and the presences by scene id.
\<close>

record ns_entry =
  ns_noun_type :: noun_type
  ns_scenes :: "(nat \<times> presence list) list"

record Presences =
  presences :: "presence list"
  presence_ns :: "(string \<times> ns_entry) list"
  presence_sn :: "(nat \<times> (string \<times> presence list) list) list"

record Interactions =
  interactions :: "interaction list"
  interaction_ns :: "(string \<times> (string \<times> (nat \<times> interaction list) list) list) list"
  interaction_sn :: "(nat \<times> (string \<times> (string \<times> interaction list) list) list) list"

definition get_presence :: "string \<times> noun_type \<Rightarrow> itype \<Rightarrow> nat \<Rightarrow> int \<Rightarrow> int \<Rightarrow> presence" where
  "get_presence noun presence_type scene_id page_no line_no =
     \<lparr> p_name = fst noun, p_noun_type = snd noun, p_presence_type = presence_type,
       p_where = \<lparr> w_scene_id = scene_id, w_page_no = page_no, w_line_no = line_no \<rparr>,
       p_dialog_words = None \<rparr>"

definition get_interaction :: "presence option \<Rightarrow> presence \<Rightarrow> where_rec \<Rightarrow> itype \<Rightarrow> interaction" where
  "get_interaction a b wh nature = \<lparr> i_a = a, i_b = b, i_where = wh, i_type = nature \<rparr>"

definition update_noun_type :: "noun_type \<Rightarrow> noun_type \<Rightarrow> noun_type \<times> diag list" where
  "update_noun_type old_type new_type =
     (if (old_type = THING \<and> new_type \<in> {LOCATION, CHARACTER})
         \<or> (old_type = LOCATION \<and> new_type = CHARACTER) then (new_type, [])
      else if old_type = CHARACTER \<and> new_type = LOCATION then
        (old_type, [CharacterInLocationContext])
      else (old_type, []))"

definition update_presence :: "Presences \<Rightarrow> presence \<Rightarrow> Presences \<times> diag list" where
  "update_presence P presence =
     (let name = p_name presence;
          ntype = p_noun_type presence;
          scene_id = w_scene_id (p_where presence);
          entry =
            (case map_of (presence_ns P) name of
               None \<Rightarrow> \<lparr> ns_noun_type = ntype, ns_scenes = [(scene_id, [presence])] \<rparr>
             | Some e \<Rightarrow>
                 (case map_of (ns_scenes e) scene_id of
                    None \<Rightarrow> e\<lparr> ns_scenes := AList.update scene_id [presence] (ns_scenes e) \<rparr>
                  | Some l \<Rightarrow>
                      e\<lparr> ns_scenes := AList.update scene_id (l @ [presence]) (ns_scenes e) \<rparr>));
          promoted = update_noun_type (ns_noun_type entry) ntype;
          by_scene =
            (case map_of (presence_sn P) scene_id of
               None \<Rightarrow> [(name, [presence])]
             | Some d \<Rightarrow>
                 (case map_of d name of
                    None \<Rightarrow> AList.update name [presence] d
                  | Some l \<Rightarrow> AList.update name (l @ [presence]) d))
      in (\<lparr> presences = presences P @ [presence],
            presence_ns = AList.update name (entry\<lparr> ns_noun_type := fst promoted \<rparr>) (presence_ns P),
            presence_sn = AList.update scene_id by_scene (presence_sn P) \<rparr>,
          snd promoted))"

text \<open>
  The helper is one function for both interaction indices: the three keys are a name,
  a name and a scene id for \<open>interaction_ns\<close>, and a scene id and two names for
  \<open>interaction_sn\<close>.  The source reads the keys inside the helper (\<open>a[a_key]\<close>); the model
  reads them in \<open>update_interaction\<close>.
\<close>

definition update_interaction_helper ::
  "('a \<times> ('b \<times> ('c \<times> 'v list) list) list) list \<Rightarrow> 'a \<Rightarrow> 'b \<Rightarrow> 'c \<Rightarrow> 'v
     \<Rightarrow> ('a \<times> ('b \<times> ('c \<times> 'v list) list) list) list"
where
  "update_interaction_helper dictionary a_val b_val c_val interaction =
     (case map_of dictionary a_val of
        None \<Rightarrow> AList.update a_val [(b_val, [(c_val, [interaction])])] dictionary
      | Some da \<Rightarrow>
          (case map_of da b_val of
             None \<Rightarrow> AList.update a_val (AList.update b_val [(c_val, [interaction])] da) dictionary
           | Some db \<Rightarrow>
               (case map_of db c_val of
                  None \<Rightarrow>
                    AList.update a_val
                      (AList.update b_val (AList.update c_val [interaction] db) da) dictionary
                | Some l \<Rightarrow>
                    AList.update a_val
                      (AList.update b_val (AList.update c_val (l @ [interaction]) db) da)
                      dictionary)))"

text \<open>
  \<open>update_interaction\<close> appends the interaction to the log first and calls the helper
  then.  For the scene location \<open>{}\<close> the first call of the helper raises \<open>KeyError\<close> at
  \<open>a['name']\<close>, before any index is written: the graph that the exception leaves behind
  has the interaction in its log and its indices as they were.  \<open>Inl\<close> carries the
  exception and that graph, \<open>Inr\<close> the graph of a call that returns.
\<close>

definition update_interaction ::
  "Interactions \<Rightarrow> presence option \<Rightarrow> presence \<Rightarrow> where_rec \<Rightarrow> itype
     \<Rightarrow> (py_error \<times> Interactions) + Interactions"
where
  "update_interaction I a b wh itype =
     (let x = get_interaction a b wh itype;
          I1 = I\<lparr> interactions := interactions I @ [x] \<rparr>
      in case a of
           None \<Rightarrow> Inl (KeyError, I1)
         | Some pa \<Rightarrow>
             (let an = p_name pa; bn = p_name b; sc = w_scene_id wh;
                  ns1 = update_interaction_helper (interaction_ns I1) an bn sc x;
                  ns2 = update_interaction_helper ns1 bn an sc x;
                  sn1 = update_interaction_helper (interaction_sn I1) sc an bn x;
                  sn2 = update_interaction_helper sn1 sc bn an x
              in Inr (I1\<lparr> interaction_ns := ns2, interaction_sn := sn2 \<rparr>)))"

section \<open>The segmenter\<close>

record line_rec =
  l_content :: string
  l_line_no :: int
  l_page_no :: int

text \<open>
  A block and a scene are dictionaries; the keys \<open>total_words\<close> and \<open>dialog_words\<close> are
  absent (\<open>None\<close>) until the word-count pass sets them.  The keys \<open>str(line_no)\<close> of
  \<open>line_types\<close> and \<open>str(scene_number)\<close> of \<open>scenes\<close> are modelled by the numbers.  The
  \<open>last_line\<close> of a scene is \<open>None\<close> when it is set from the loop variable \<open>line_no\<close> of
  an empty input.
\<close>

record block =
  b_block_type :: ltype
  b_first_line :: int
  b_last_line :: int
  b_line_types :: "(int \<times> ltype) list"
  b_total_words :: "nat option"

record scene =
  s_scene_number :: nat
  s_heading_line :: int
  s_first_line :: int
  s_last_line :: "int option"
  s_scene_blocks :: "block list"
  s_total_words :: "nat option"
  s_dialog_words :: "nat option"

record pstate =
  front_first_line :: int
  front_last_line :: int
  scenes :: "(nat \<times> scene) list"
  current_scene :: scene
  current_block :: block
  prior_types :: "ltype \<times> ltype"
  cur_line_no :: "int option"
  plog :: "diag list"

record script_structure =
  st_front_first_line :: int
  st_front_last_line :: int
  st_scenes :: "(nat \<times> scene) list"
  st_total_words :: nat
  st_dialog_words :: nat

definition new_block :: "ltype \<times> ltype \<Rightarrow> int \<Rightarrow> block" where
  "new_block types line_no =
     \<lparr> b_block_type = fst types, b_first_line = line_no, b_last_line = line_no,
       b_line_types = [(line_no, snd types)], b_total_words = None \<rparr>"

definition append_block :: "scene \<Rightarrow> block \<Rightarrow> scene" where
  "append_block sc b = sc\<lparr> s_scene_blocks := s_scene_blocks sc @ [b] \<rparr>"

definition initial_pstate :: pstate where
  "initial_pstate =
     \<lparr> front_first_line = 0, front_last_line = 0, scenes = [],
       current_scene =
         \<lparr> s_scene_number = 0, s_heading_line = 1, s_first_line = 1, s_last_line = Some 1,
           s_scene_blocks = [], s_total_words = None, s_dialog_words = None \<rparr>,
       current_block =
         \<lparr> b_block_type = EMPTY, b_first_line = 1, b_last_line = 1,
           b_line_types = [(1, EMPTY)], b_total_words = None \<rparr>,
       prior_types = (FRONT, FRONT), cur_line_no = None, plog = [] \<rparr>"

text \<open>One iteration of the loop over \<open>enumerate(script_lines)\<close>.\<close>

definition parse_step :: "parse_mode \<Rightarrow> pstate \<Rightarrow> line_rec \<Rightarrow> string option \<Rightarrow> pstate" where
  "parse_step mode st0 line_dict next_line =
     (let line = l_content line_dict;
          line_no = l_line_no line_dict;
          page_no = l_page_no line_dict;
          prior = prior_types st0;
          res = get_types mode line next_line prior;
          types = fst res;
          st = st0\<lparr> cur_line_no := Some line_no, plog := plog st0 @ snd res \<rparr>
      in if fst types = FRONT then
           st\<lparr> front_first_line := 1, front_last_line := line_no \<rparr>
         else if fst types = ERROR then
           st\<lparr> plog := plog st @ [ParseError page_no line_no line (fst prior) (snd prior)],
               current_scene :=
                 append_block (current_scene st)
                   ((current_block st)\<lparr> b_block_type := fst prior \<rparr>),
               current_block := new_block types line_no,
               prior_types := types \<rparr>
         else if fst types = fst prior then
           st\<lparr> current_block :=
                 (current_block st)
                   \<lparr> b_last_line := line_no,
                     b_line_types :=
                       AList.update line_no (snd types) (b_line_types (current_block st)) \<rparr>,
               prior_types := types \<rparr>
         else
           (let cs = append_block (current_scene st) (current_block st) in
            if fst types = SCENE_HEADING then
              st\<lparr> scenes :=
                    AList.update (s_scene_number cs) (cs\<lparr> s_last_line := Some (line_no - 1) \<rparr>)
                      (scenes st),
                  current_scene :=
                    \<lparr> s_scene_number = s_scene_number cs + 1, s_heading_line = line_no,
                      s_first_line = line_no, s_last_line = Some line_no,
                      s_scene_blocks = [], s_total_words = None, s_dialog_words = None \<rparr>,
                  current_block := new_block types line_no,
                  prior_types := types \<rparr>
            else
              st\<lparr> current_scene := cs,
                  current_block := new_block types line_no,
                  prior_types := types \<rparr>))"

fun parse_loop :: "parse_mode \<Rightarrow> pstate \<Rightarrow> line_rec list \<Rightarrow> pstate" where
  "parse_loop mode st [] = st"
| "parse_loop mode st (line_dict # rest) =
     parse_loop mode
       (parse_step mode st line_dict
          (case rest of [] \<Rightarrow> None | nxt # _ \<Rightarrow> Some (l_content nxt)))
       rest"

text \<open>
  The word-count pass.  The inner loop runs over \<open>range(first_line - 1, last_line)\<close> and
  reads \<open>script_lines[line]\<close>.
\<close>

fun count_lines ::
  "line_rec list \<Rightarrow> ltype \<Rightarrow> int list \<Rightarrow> nat \<Rightarrow> nat \<Rightarrow> py_error + (nat \<times> nat)"
where
  "count_lines script_lines block_type [] block_words dialog_words =
     Inr (block_words, dialog_words)"
| "count_lines script_lines block_type (line # rest) block_words dialog_words =
     (case py_index script_lines line of
        Inl e \<Rightarrow> Inl e
      | Inr line_dict \<Rightarrow>
          (let word_count = word_count (l_content line_dict)
           in count_lines script_lines block_type rest (block_words + word_count)
                (if block_type = DIALOG then dialog_words + word_count else dialog_words)))"

fun count_blocks ::
  "line_rec list \<Rightarrow> block list \<Rightarrow> block list \<Rightarrow> nat \<Rightarrow> nat
     \<Rightarrow> py_error + (block list \<times> nat \<times> nat)"
where
  "count_blocks script_lines [] done total_words dialog_words =
     Inr (done, total_words, dialog_words)"
| "count_blocks script_lines (b # rest) done total_words dialog_words =
     (if b_block_type b = EMPTY then
        count_blocks script_lines rest (done @ [b\<lparr> b_total_words := Some 0 \<rparr>])
          total_words dialog_words
      else
        (case count_lines script_lines (b_block_type b)
                [b_first_line b - 1 .. b_last_line b - 1] 0 dialog_words of
           Inl e \<Rightarrow> Inl e
         | Inr (block_words, dialog_words') \<Rightarrow>
             count_blocks script_lines rest (done @ [b\<lparr> b_total_words := Some block_words \<rparr>])
               (total_words + block_words) dialog_words'))"

fun count_scenes ::
  "line_rec list \<Rightarrow> (nat \<times> scene) list \<Rightarrow> (nat \<times> scene) list \<Rightarrow> nat \<Rightarrow> nat
     \<Rightarrow> py_error + ((nat \<times> scene) list \<times> nat \<times> nat)"
where
  "count_scenes script_lines [] done script_total_words script_dialog_words =
     Inr (done, script_total_words, script_dialog_words)"
| "count_scenes script_lines ((scene_id, sc) # rest) done script_total_words script_dialog_words =
     (case count_blocks script_lines (s_scene_blocks sc) [] 0 0 of
        Inl e \<Rightarrow> Inl e
      | Inr (blocks, total_words, dialog_words) \<Rightarrow>
          count_scenes script_lines rest
            (done @ [(scene_id, sc\<lparr> s_scene_blocks := blocks, s_total_words := Some total_words,
                                   s_dialog_words := Some dialog_words \<rparr>)])
            (script_total_words + total_words) (script_dialog_words + dialog_words))"

definition parse_script_lines :: "parse_mode \<Rightarrow> line_rec list \<Rightarrow> py_error + (script_structure \<times> diag list)" where
  "parse_script_lines mode script_lines =
     (let st = parse_loop mode initial_pstate script_lines;
          cs = (append_block (current_scene st) (current_block st))
                 \<lparr> s_last_line := cur_line_no st \<rparr>;
          all_scenes = AList.update (s_scene_number cs) cs (scenes st)
      in case map_of all_scenes 0 of
           None \<Rightarrow> Inl KeyError
         | Some _ \<Rightarrow>
             (case count_scenes script_lines (AList.delete 0 all_scenes) [] 0 0 of
                Inl e \<Rightarrow> Inl e
              | Inr (counted, script_total_words, script_dialog_words) \<Rightarrow>
                  Inr (\<lparr> st_front_first_line = front_first_line st,
                         st_front_last_line = front_last_line st,
                         st_scenes = counted,
                         st_total_words = script_total_words,
                         st_dialog_words = script_dialog_words \<rparr>,
                       plog st)))"

section \<open>Text utilities of the extraction engine\<close>

text \<open>\<open>s.lstrip()\<close>, \<open>s.rstrip()\<close> and \<open>s.strip()\<close>.\<close>

definition lstrip :: "string \<Rightarrow> string" where
  "lstrip s = dropWhile is_space s"

definition rstrip :: "string \<Rightarrow> string" where
  "rstrip s = rev (dropWhile is_space (rev s))"

definition strip :: "string \<Rightarrow> string" where
  "strip s = rstrip (lstrip s)"

text \<open>
  \<open>re.sub(r'^R', '', s, count=1)\<close>: the match that Python finds is the first one in
  backtracking order.
\<close>

definition sub_prefix :: "rx \<Rightarrow> string \<Rightarrow> string" where
  "sub_prefix r s = (case residuals r s of [] \<Rightarrow> s | x # _ \<Rightarrow> x)"

text \<open>
  \<open>re.sub(r'R$', '', s, count=1)\<close>: the leftmost position where \<open>R\<close> matches up to the
  end of the string (or up to a newline that ends it).
\<close>

fun sub_first_eos :: "rx \<Rightarrow> string \<Rightarrow> string" where
  "sub_first_eos r [] = (case filter at_eos (residuals r []) of [] \<Rightarrow> [] | x # _ \<Rightarrow> x)"
| "sub_first_eos r (c # t) =
     (case filter at_eos (residuals r (c # t)) of [] \<Rightarrow> c # sub_first_eos r t | x # _ \<Rightarrow> x)"

text \<open>
  \<open>re.sub(R, repl, s)\<close> for a pattern that matches no empty string: every leftmost match
  is replaced, and the search goes on behind it.
\<close>

function sub_all :: "rx \<Rightarrow> string \<Rightarrow> string \<Rightarrow> string" where
  "sub_all r repl [] = []"
| "sub_all r repl (c # t) =
     (case residuals r (c # t) of
        [] \<Rightarrow> c # sub_all r repl t
      | x # _ \<Rightarrow> if length x \<le> length t then repl @ sub_all r repl x
                 else c # sub_all r repl t)"
  by pat_completeness auto
termination
  by (relation "measure (\<lambda>(r, repl, s). length s)") auto

definition is_dash :: "char \<Rightarrow> bool" where
  "is_dash c = (c = CHR ''-'')"

definition not_dash :: "char \<Rightarrow> bool" where
  "not_dash c = (c \<noteq> CHR ''-'')"

definition not_rparen :: "char \<Rightarrow> bool" where
  "not_rparen c = (c \<noteq> CHR '')'')"

definition is_blank :: "char \<Rightarrow> bool" where
  "is_blank c = (c = CHR 0x09 \<or> c = CHR '' '')"

definition strip_leading :: "string \<Rightarrow> string \<Rightarrow> string" where
  "strip_leading name remove =
     (let result = (if match_prefix (seq [lits remove, Plus is_space]) name
                    then drop (length remove + 1) name else [])
      in if length result = 0 then name
         else if search_anchored (Star is_space) result then name
         else result)"

definition get_scene_location :: "string \<Rightarrow> string" where
  "get_scene_location scene_heading =
     (let h1 = (if startswith scene_heading ''INTERIOR'' \<or> startswith scene_heading ''EXTERIOR''
                then drop 8 scene_heading
                else if startswith scene_heading ''INT.'' \<or> startswith scene_heading ''EXT.''
                then drop 4 scene_heading
                else scene_heading);
          h2 = sub_prefix (seq [Star is_space, Plus is_dash, Star is_space]) h1;
          h3 = lstrip h2;
          h4 = sub_first_eos (seq [Plus is_dash, Star not_dash]) h3;
          h5 = rstrip h4
      in strip_leading h5 ''THE'')"

definition get_character_from_dialog_header :: "string \<Rightarrow> string" where
  "get_character_from_dialog_header dialog_header =
     strip (sub_all (seq [Lit CHR ''('', Star not_rparen, Lit CHR '')'']) [] dialog_header)"

section \<open>Finding names in a sentence\<close>

text \<open>
  \<open>\b\<close> holds between a word character and a character that is none; the start and the
  end of the text count as no word character.
\<close>

definition prev_is_word :: "char option \<Rightarrow> bool" where
  "prev_is_word prev = (case prev of None \<Rightarrow> False | Some c \<Rightarrow> is_word c)"

definition next_is_word :: "string \<Rightarrow> bool" where
  "next_is_word s = (case s of [] \<Rightarrow> False | c # _ \<Rightarrow> is_word c)"

definition word_boundary :: "char option \<Rightarrow> string \<Rightarrow> bool" where
  "word_boundary prev s = (prev_is_word prev \<noteq> next_is_word s)"

text \<open>
  The patterns built from a name: \<open>re.escape(name)\<close> matches the name literally;
  a discovered name is used as a pattern as it is, and of the characters such a name
  can hold (\<open>[A-Z0-9\s.\-']\<close>) the dot alone is special: it matches every character but
  a newline.  With \<open>re.I\<close> letters are compared without case.
\<close>

datatype pitem = PLit char | PAny

definition lower_char :: "char \<Rightarrow> char" where
  "lower_char c = (if is_upper c then char_of (of_char c + (32 :: nat)) else c)"

definition escape_pat :: "string \<Rightarrow> pitem list" where
  "escape_pat name = map PLit name"

definition raw_pat :: "string \<Rightarrow> pitem list" where
  "raw_pat name = map (\<lambda>c. if c = CHR ''.'' then PAny else PLit c) name"

fun pitem_matches :: "pitem \<Rightarrow> char \<Rightarrow> bool" where
  "pitem_matches (PLit d) c = (lower_char d = lower_char c)"
| "pitem_matches PAny c = (c \<noteq> CHR 0x0A)"

text \<open>The previous character and the rest of the text after the pattern, if it matches.\<close>

fun pat_match :: "pitem list \<Rightarrow> char option \<Rightarrow> string \<Rightarrow> (char option \<times> string) option" where
  "pat_match [] prev s = Some (prev, s)"
| "pat_match (i # is) prev [] = None"
| "pat_match (i # is) prev (c # t) = (if pitem_matches i c then pat_match is (Some c) t else None)"

definition name_matches_at :: "pitem list \<Rightarrow> char option \<Rightarrow> string \<Rightarrow> bool" where
  "name_matches_at pat prev s =
     (word_boundary prev s
      \<and> (case pat_match pat prev s of None \<Rightarrow> False | Some (before, rest) \<Rightarrow> word_boundary before rest))"

text \<open>
  \<open>[m.start() for m in re.finditer(r'\b' + pat + r'\b', text, re.I)]\<close>: the search goes
  on at the end of a match, one character further after an empty match.  \<open>skip\<close> counts
  the positions still covered by the last match.
\<close>

fun finditer_starts :: "pitem list \<Rightarrow> char option \<Rightarrow> string \<Rightarrow> nat \<Rightarrow> nat \<Rightarrow> nat list" where
  "finditer_starts pat prev [] pos skip =
     (if skip = 0 \<and> name_matches_at pat prev [] then [pos] else [])"
| "finditer_starts pat prev (c # t) pos skip =
     (if skip = 0 \<and> name_matches_at pat prev (c # t)
      then pos # finditer_starts pat (Some c) t (Suc pos) (length pat - 1)
      else finditer_starts pat (Some c) t (Suc pos) (skip - 1))"

text \<open>
  The names of \<open>presence_ns\<close> are visited in the order of the association list and
  \<open>set\<close> is modelled by \<^const>\<open>remdups\<close>; Python fixes neither order, so the order of two
  names found at the same offset is the model's choice.  \<open>sorted\<close> is stable.
\<close>

definition get_name_offsets ::
  "Presences \<Rightarrow> string \<Rightarrow> nat \<Rightarrow> (string \<times> noun_type) list \<Rightarrow> (string \<times> nat) list"
where
  "get_name_offsets P t offset new_nouns =
     (let known = concat (map (\<lambda>name. map (Pair name)
                                 (finditer_starts (escape_pat name) None t 0 0))
                            (map fst (presence_ns P)));
          fresh = concat (map (\<lambda>noun. map (Pair (fst noun))
                                 (finditer_starts (raw_pat (fst noun)) None t 0 0))
                            new_nouns)
      in sort_key snd (remdups (known @ fresh)))"

text \<open>
  \<open>re.findall(r'\b[A-Z][A-Z0-9\s\.\-\']+\b', text)\<close>: at a word boundary before a capital
  the class is matched greedily and given back character by character until a word
  boundary ends the match.
\<close>

definition in_noun_class :: "char \<Rightarrow> bool" where
  "in_noun_class c = (is_upper c \<or> is_digit c \<or> is_space c \<or> c = CHR ''.'' \<or> c = CHR ''-''
                      \<or> c = CHR 0x27)"

definition boundary_after :: "string \<Rightarrow> nat \<Rightarrow> bool" where
  "boundary_after s n = (n > 0 \<and> word_boundary (Some (s ! (n - 1))) (drop n s))"

definition noun_match_length :: "char option \<Rightarrow> string \<Rightarrow> nat option" where
  "noun_match_length prev s =
     (case s of
        [] \<Rightarrow> None
      | c # t \<Rightarrow>
          if word_boundary prev s \<and> is_upper c
          then List.find (boundary_after s) (rev [2 ..< length (takeWhile in_noun_class t) + 2])
          else None)"

fun findall_nouns :: "char option \<Rightarrow> string \<Rightarrow> nat \<Rightarrow> string list" where
  "findall_nouns prev [] skip = []"
| "findall_nouns prev (c # t) skip =
     (if skip = 0 then
        (case noun_match_length prev (c # t) of
           None \<Rightarrow> findall_nouns (Some c) t 0
         | Some n \<Rightarrow> take n (c # t) # findall_nouns (Some c) t (n - 1))
      else findall_nouns (Some c) t (skip - 1))"

definition discover_nouns :: "Presences \<Rightarrow> string \<Rightarrow> noun_type \<Rightarrow> (string \<times> noun_type) list" where
  "discover_nouns P t ntype =
     (let found = filter (\<lambda>x. strip x \<noteq> [] \<and> list_ex is_upper x \<and> strip x \<noteq> ''A''
                              \<and> strip x \<noteq> ''I'' \<and> last x \<noteq> CHR 0x27)
                    (findall_nouns None t 0);
          provisional_names =
            map (\<lambda>x. strip_leading
                        (let y = strip x
                         in if startswith y ''A '' \<or> startswith y ''I '' then drop 2 y else y)
                        ''THE'')
              found
      in map (\<lambda>name. (name, ntype))
           (filter (\<lambda>name. map_of (presence_ns P) name = None) provisional_names))"

definition get_noun_type_for_name :: "Presences \<Rightarrow> string \<Rightarrow> noun_type \<Rightarrow> noun_type" where
  "get_noun_type_for_name P name dflt =
     (case map_of (presence_ns P) name of Some e \<Rightarrow> ns_noun_type e | None \<Rightarrow> dflt)"

definition get_page_for_line :: "line_rec list \<Rightarrow> int \<Rightarrow> py_error + int" where
  "get_page_for_line script_lines line_no =
     (case py_index script_lines (line_no - 1) of
        Inl e \<Rightarrow> Inl e
      | Inr line_dict \<Rightarrow> Inr (l_page_no line_dict))"

section \<open>The extraction engine\<close>

text \<open>
  The registry, the graph and the messages printed so far.  \<open>sent_tokenize\<close> is NLTK's
  sentence tokenizer, a parameter \<open>tok\<close> of the engine.  The registry and the graph are
  objects that \<open>compute_presence_and_interactions\<close> creates and returns: an exception
  leaves that function without them, so the engine's functions keep the exception only.
\<close>

record xstate =
  xP :: Presences
  xI :: Interactions
  xlog :: "diag list"

definition x_update_presence :: "xstate \<Rightarrow> presence \<Rightarrow> xstate" where
  "x_update_presence st presence =
     (let r = update_presence (xP st) presence
      in st\<lparr> xP := fst r, xlog := xlog st @ snd r \<rparr>)"

definition x_update_interaction ::
  "xstate \<Rightarrow> presence option \<Rightarrow> presence \<Rightarrow> where_rec \<Rightarrow> itype \<Rightarrow> py_error + xstate"
where
  "x_update_interaction st a b wh itype =
     (case update_interaction (xI st) a b wh itype of
        Inl (e, I') \<Rightarrow> Inl e
      | Inr I' \<Rightarrow> Inr (st\<lparr> xI := I' \<rparr>))"

text \<open>\<open>itertools.combinations(xs, 2)\<close>.\<close>

fun combinations2 :: "'a list \<Rightarrow> ('a \<times> 'a) list" where
  "combinations2 [] = []"
| "combinations2 (x # xs) = map (Pair x) xs @ combinations2 xs"

text \<open>The loop over \<open>name_offsets\<close> of one sentence.\<close>

fun names_loop ::
  "line_rec list \<Rightarrow> (nat \<times> int) list \<Rightarrow> itype \<Rightarrow> nat \<Rightarrow> presence option \<Rightarrow> nat
     \<Rightarrow> (string \<times> nat) list \<Rightarrow> presence list \<Rightarrow> presence list \<Rightarrow> xstate
     \<Rightarrow> py_error + (presence list \<times> presence list \<times> xstate)"
where
  "names_loop script_lines line_offsets presence_type scene_id scene_location prior_offset
     [] sent_presences result st = Inr (sent_presences, result, st)"
| "names_loop script_lines line_offsets presence_type scene_id scene_location prior_offset
     ((name, offset) # rest) sent_presences result st =
     (let total_offset = prior_offset + offset;
          found = get_line_for_offset line_offsets total_offset;
          st1 = st\<lparr> xlog := xlog st @ fst found \<rparr>
      in case snd found of
           Inl e \<Rightarrow> Inl e
         | Inr line_no \<Rightarrow>
             (let ntype = get_noun_type_for_name (xP st1) name THING
              in case get_page_for_line script_lines line_no of
                   Inl e \<Rightarrow> Inl e
                 | Inr page_no \<Rightarrow>
                     (let presence = get_presence (name, ntype) presence_type scene_id
                                       page_no line_no;
                          st2 = x_update_presence st1 presence
                      in case x_update_interaction st2 scene_location presence
                                (p_where presence) SETTING of
                           Inl e \<Rightarrow> Inl e
                         | Inr st3 \<Rightarrow>
                             names_loop script_lines line_offsets presence_type scene_id
                               scene_location prior_offset rest
                               (sent_presences @ [presence]) (result @ [presence]) st3)))"

text \<open>The loop over the pairs of presences of one sentence; the source records them as \<open>APPEAR\<close>.\<close>

fun pairs_loop :: "(presence \<times> presence) list \<Rightarrow> xstate \<Rightarrow> py_error + xstate" where
  "pairs_loop [] st = Inr st"
| "pairs_loop ((p1, p2) # rest) st =
     (case x_update_interaction st (Some p1) p2 (p_where p1) APPEAR of
        Inl e \<Rightarrow> Inl e
      | Inr st' \<Rightarrow> pairs_loop rest st')"

fun sentences_loop ::
  "parse_mode \<Rightarrow> line_rec list \<Rightarrow> (nat \<times> int) list \<Rightarrow> itype \<Rightarrow> nat \<Rightarrow> presence option
     \<Rightarrow> string list \<Rightarrow> nat \<Rightarrow> presence list \<Rightarrow> xstate
     \<Rightarrow> py_error + (presence list \<times> xstate)"
where
  "sentences_loop mode script_lines line_offsets presence_type scene_id scene_location
     [] prior_offset result st = Inr (result, st)"
| "sentences_loop mode script_lines line_offsets presence_type scene_id scene_location
     (sent # rest) prior_offset result st =
     (let new_nouns = (case mode of FUZZY \<Rightarrow> discover_nouns (xP st) sent THING | STRICT \<Rightarrow> []);
          name_offsets = get_name_offsets (xP st) sent prior_offset new_nouns
      in case names_loop script_lines line_offsets presence_type scene_id scene_location
                prior_offset name_offsets [] result st of
           Inl e \<Rightarrow> Inl e
         | Inr (sent_presences, result', st1) \<Rightarrow>
             (case pairs_loop (combinations2 sent_presences) st1 of
                Inl e \<Rightarrow> Inl e
              | Inr st2 \<Rightarrow>
                  sentences_loop mode script_lines line_offsets presence_type scene_id
                    scene_location rest (prior_offset + (length sent + 1)) result' st2))"

definition update_presence_and_interactions_for_lines ::
  "parse_mode \<Rightarrow> (string \<Rightarrow> string list) \<Rightarrow> xstate \<Rightarrow> line_rec list \<Rightarrow> int \<Rightarrow> int \<Rightarrow> nat
     \<Rightarrow> presence option \<Rightarrow> itype \<Rightarrow> py_error + (presence list \<times> xstate)"
where
  "update_presence_and_interactions_for_lines mode tok st script_lines first_line last_line
     scene_id scene_location presence_type =
     (let joined = concat (map l_content (py_slice script_lines (first_line - 1) last_line));
          t1 = sub_all (Plus is_blank) '' '' joined;
          line_offsets = get_line_offsets t1 first_line;
          t2 = sub_all (Plus is_space) '' '' t1
      in sentences_loop mode script_lines line_offsets presence_type scene_id scene_location
           (tok t2) 0 [] st)"

text \<open>The loop that links the presences mentioned in a run of dialog to the prior speaker.\<close>

fun mention_loop :: "presence \<Rightarrow> presence list \<Rightarrow> xstate \<Rightarrow> py_error + xstate" where
  "mention_loop prior_speaker [] st = Inr st"
| "mention_loop prior_speaker (thing # rest) st =
     (case x_update_interaction st (Some prior_speaker) thing (p_where thing) MENTION of
        Inl e \<Rightarrow> Inl e
      | Inr st' \<Rightarrow> mention_loop prior_speaker rest st')"

definition flush_dialog ::
  "parse_mode \<Rightarrow> (string \<Rightarrow> string list) \<Rightarrow> xstate \<Rightarrow> line_rec list \<Rightarrow> int \<Rightarrow> int \<Rightarrow> nat
     \<Rightarrow> presence option \<Rightarrow> presence option \<Rightarrow> py_error + xstate"
where
  "flush_dialog mode tok st script_lines first_dialog_line last_dialog_line scene_id
     scene_location prior_speaker =
     (case update_presence_and_interactions_for_lines mode tok st script_lines
             first_dialog_line last_dialog_line scene_id scene_location MENTION of
        Inl e \<Rightarrow> Inl e
      | Inr (mentioned, st1) \<Rightarrow>
          (case prior_speaker of
             None \<Rightarrow> Inr st1
           | Some speaker \<Rightarrow> mention_loop speaker mentioned st1))"

text \<open>The state of the loop over the lines of a dialog block.\<close>

record dstate =
  speakers_present :: "presence list"
  running_dialog :: bool
  prior_speaker :: "presence option"
  first_dialog_line :: int
  last_dialog_line :: int
  dx :: xstate

fun dialog_loop ::
  "parse_mode \<Rightarrow> (string \<Rightarrow> string list) \<Rightarrow> line_rec list \<Rightarrow> nat \<Rightarrow> presence option
     \<Rightarrow> (int \<times> ltype) list \<Rightarrow> dstate \<Rightarrow> py_error + dstate"
where
  "dialog_loop mode tok script_lines scene_id scene_location [] d = Inr d"
| "dialog_loop mode tok script_lines scene_id scene_location ((line_no, line_type) # rest) d =
     (if line_type = DIALOG_HEADER then
        (case py_index script_lines (line_no - 1) of
           Inl e \<Rightarrow> Inl e
         | Inr line_dict \<Rightarrow>
             (let character = get_character_from_dialog_header (l_content line_dict) in
              if character = [] then
                dialog_loop mode tok script_lines scene_id scene_location rest
                  (d\<lparr> dx := (dx d)\<lparr> xlog := xlog (dx d) @ [EmptyCharacterName line_no] \<rparr> \<rparr>)
              else
                (case get_page_for_line script_lines line_no of
                   Inl e \<Rightarrow> Inl e
                 | Inr page_no \<Rightarrow>
                     (let speaker = get_presence (character, CHARACTER) DISCUSS scene_id
                                      page_no line_no;
                          st1 = x_update_presence (dx d) speaker
                      in case x_update_interaction st1 scene_location speaker
                                (p_where speaker) SETTING of
                           Inl e \<Rightarrow> Inl e
                         | Inr st2 \<Rightarrow>
                             (let d1 = d\<lparr> speakers_present := speakers_present d @ [speaker],
                                          dx := st2 \<rparr>
                              in if running_dialog d1 then
                                   (case flush_dialog mode tok st2 script_lines
                                           (first_dialog_line d1) (last_dialog_line d1)
                                           scene_id scene_location (prior_speaker d1) of
                                      Inl e \<Rightarrow> Inl e
                                    | Inr st3 \<Rightarrow>
                                        dialog_loop mode tok script_lines scene_id
                                          scene_location rest
                                          (d1\<lparr> dx := st3, running_dialog := False,
                                               prior_speaker := Some speaker \<rparr>))
                                 else
                                   dialog_loop mode tok script_lines scene_id scene_location
                                     rest (d1\<lparr> prior_speaker := Some speaker \<rparr>))))))
      else if line_type = DIALOG then
        (if running_dialog d then
           dialog_loop mode tok script_lines scene_id scene_location rest
             (d\<lparr> last_dialog_line := line_no \<rparr>)
         else
           dialog_loop mode tok script_lines scene_id scene_location rest
             (d\<lparr> running_dialog := True, first_dialog_line := line_no,
                  last_dialog_line := line_no \<rparr>))
      else dialog_loop mode tok script_lines scene_id scene_location rest d)"

text \<open>
  The two nested loops over \<open>enumerate(speakers_present)\<close> that record the \<open>DISCUSS\<close>
  interactions; \<open>dialog_recorded\<close> is a dictionary whose values are all \<open>True\<close>.
\<close>

fun discuss_inner ::
  "Interactions \<Rightarrow> (string \<times> bool) list \<Rightarrow> nat \<Rightarrow> presence \<Rightarrow> (nat \<times> presence) list
     \<Rightarrow> py_error + Interactions"
where
  "discuss_inner I dialog_recorded s1_pos s1 [] = Inr I"
| "discuss_inner I dialog_recorded s1_pos s1 ((s2_pos, s2) # rest) =
     (if s2_pos \<le> s1_pos \<or> map_of dialog_recorded (p_name s2) \<noteq> None
         \<or> p_name s1 = p_name s2
      then discuss_inner I dialog_recorded s1_pos s1 rest
      else (case update_interaction I (Some s1) s2 (p_where s1) DISCUSS of
              Inl (e, I') \<Rightarrow> Inl e
            | Inr I' \<Rightarrow> discuss_inner I' dialog_recorded s1_pos s1 rest))"

fun discuss_outer ::
  "Interactions \<Rightarrow> (string \<times> bool) list \<Rightarrow> presence list \<Rightarrow> (nat \<times> presence) list
     \<Rightarrow> py_error + Interactions"
where
  "discuss_outer I dialog_recorded speakers [] = Inr I"
| "discuss_outer I dialog_recorded speakers ((s1_pos, s1) # rest) =
     (case discuss_inner I dialog_recorded s1_pos s1 (enumerate 0 speakers) of
        Inl e \<Rightarrow> Inl e
      | Inr I' \<Rightarrow>
          discuss_outer I' (AList.update (p_name s1) True dialog_recorded) speakers rest)"

definition link_speakers :: "Interactions \<Rightarrow> presence list \<Rightarrow> py_error + Interactions" where
  "link_speakers I speakers = discuss_outer I [] speakers (enumerate 0 speakers)"

definition update_presence_and_interactions_for_dialog ::
  "parse_mode \<Rightarrow> (string \<Rightarrow> string list) \<Rightarrow> xstate \<Rightarrow> line_rec list \<Rightarrow> nat
     \<Rightarrow> presence option \<Rightarrow> block \<Rightarrow> py_error + xstate"
where
  "update_presence_and_interactions_for_dialog mode tok st script_lines scene_id
     scene_location blk =
     (case dialog_loop mode tok script_lines scene_id scene_location
             (sort_key fst (b_line_types blk))
             \<lparr> speakers_present = [], running_dialog = False, prior_speaker = None,
               first_dialog_line = 0, last_dialog_line = 0, dx = st \<rparr> of
        Inl e \<Rightarrow> Inl e
      | Inr d \<Rightarrow>
          (case (if running_dialog d
                 then flush_dialog mode tok (dx d) script_lines (first_dialog_line d)
                        (last_dialog_line d) scene_id scene_location (prior_speaker d)
                 else Inr (dx d)) of
             Inl e \<Rightarrow> Inl e
           | Inr st1 \<Rightarrow>
               (case link_speakers (xI st1) (speakers_present d) of
                  Inl e \<Rightarrow> Inl e
                | Inr I' \<Rightarrow> Inr (st1\<lparr> xI := I' \<rparr>))))"

section \<open>The two passes and the dialog word counts\<close>

text \<open>
  Modelled from the spec: the classes \<open>tsl.script.Presences.Presences\<close> and
  \<open>tsl.script.Interactions.Interactions\<close> are not part of the source at hand; their
  constructors give an empty registry and an empty graph (an append-only log with its
  derived indices).
\<close>

definition new_Presences :: Presences where
  "new_Presences = \<lparr> presences = [], presence_ns = [], presence_sn = [] \<rparr>"

definition new_Interactions :: Interactions where
  "new_Interactions = \<lparr> interactions = [], interaction_ns = [], interaction_sn = [] \<rparr>"

definition is_known_character :: "Presences \<Rightarrow> string \<Rightarrow> bool" where
  "is_known_character P name =
     (case map_of (presence_ns P) name of None \<Rightarrow> False | Some e \<Rightarrow> ns_noun_type e = CHARACTER)"

text \<open>Pass 1, the loop over the blocks of one scene.\<close>

fun pass1_blocks ::
  "parse_mode \<Rightarrow> (string \<Rightarrow> string list) \<Rightarrow> line_rec list \<Rightarrow> nat \<Rightarrow> block list
     \<Rightarrow> presence option \<Rightarrow> xstate \<Rightarrow> py_error + xstate"
where
  "pass1_blocks mode tok script_lines scene_id [] scene_location st = Inr st"
| "pass1_blocks mode tok script_lines scene_id (blk # rest) scene_location st =
     (if b_block_type blk = SCENE_HEADING then
        (case py_index script_lines (b_first_line blk - 1) of
           Inl e \<Rightarrow> Inl e
         | Inr line \<Rightarrow>
             (let name = get_scene_location (l_content line);
                  location = get_presence (name, LOCATION) SETTING scene_id
                               (l_page_no line) (l_line_no line)
              in if is_known_character (xP st) name then
                   pass1_blocks mode tok script_lines scene_id rest (Some location)
                     (st\<lparr> xlog := xlog st @ [HeadingNamesCharacter name] \<rparr>)
                 else
                   pass1_blocks mode tok script_lines scene_id rest (Some location)
                     (x_update_presence st location)))
      else if b_block_type blk = DIALOG then
        (case update_presence_and_interactions_for_dialog mode tok st script_lines scene_id
                scene_location blk of
           Inl e \<Rightarrow> Inl e
         | Inr st' \<Rightarrow> pass1_blocks mode tok script_lines scene_id rest scene_location st')
      else pass1_blocks mode tok script_lines scene_id rest scene_location st)"

fun pass1_scenes ::
  "parse_mode \<Rightarrow> (string \<Rightarrow> string list) \<Rightarrow> line_rec list \<Rightarrow> (nat \<times> scene) list \<Rightarrow> xstate
     \<Rightarrow> py_error + xstate"
where
  "pass1_scenes mode tok script_lines [] st = Inr st"
| "pass1_scenes mode tok script_lines ((scene_id, sc) # rest) st =
     (case pass1_blocks mode tok script_lines scene_id (s_scene_blocks sc) None st of
        Inl e \<Rightarrow> Inl e
      | Inr st' \<Rightarrow> pass1_scenes mode tok script_lines rest st')"

text \<open>
  Pass 2, the first loop over the blocks of a scene: it finds the scene location and
  leaves at the first heading that is no known character.  The result is the scene
  location, the prior scene location and the messages.
\<close>

fun pass2_location ::
  "line_rec list \<Rightarrow> Presences \<Rightarrow> nat \<Rightarrow> block list \<Rightarrow> presence option \<Rightarrow> presence option
     \<Rightarrow> diag list \<Rightarrow> py_error + (presence option \<times> presence option \<times> diag list)"
where
  "pass2_location script_lines P scene_id [] scene_location prior_scene_location msgs =
     Inr (scene_location, prior_scene_location, msgs)"
| "pass2_location script_lines P scene_id (blk # rest) scene_location prior_scene_location msgs =
     (if b_block_type blk = SCENE_HEADING then
        (case py_index script_lines (b_first_line blk - 1) of
           Inl e \<Rightarrow> Inl e
         | Inr line \<Rightarrow>
             (let name = get_scene_location (l_content line)
              in if is_known_character P name then
                   pass2_location script_lines P scene_id rest prior_scene_location
                     prior_scene_location (msgs @ [HeadingNamesCharacter name])
                 else
                   (case map_of (presence_sn P) scene_id of
                      None \<Rightarrow> Inl KeyError
                    | Some by_name \<Rightarrow>
                        (case map_of by_name name of
                           None \<Rightarrow> Inl KeyError
                         | Some ps \<Rightarrow>
                             (case py_index ps 0 of
                                Inl e \<Rightarrow> Inl e
                              | Inr location \<Rightarrow> Inr (Some location, Some location, msgs))))))
      else pass2_location script_lines P scene_id rest scene_location prior_scene_location msgs)"

fun pass2_blocks ::
  "parse_mode \<Rightarrow> (string \<Rightarrow> string list) \<Rightarrow> line_rec list \<Rightarrow> nat \<Rightarrow> block list
     \<Rightarrow> presence option \<Rightarrow> xstate \<Rightarrow> py_error + xstate"
where
  "pass2_blocks mode tok script_lines scene_id [] scene_location st = Inr st"
| "pass2_blocks mode tok script_lines scene_id (blk # rest) scene_location st =
     (if b_block_type blk \<in> {ACTION, DIRECTION} then
        (case update_presence_and_interactions_for_lines mode tok st script_lines
                (b_first_line blk) (b_last_line blk) scene_id scene_location APPEAR of
           Inl e \<Rightarrow> Inl e
         | Inr (found, st') \<Rightarrow> pass2_blocks mode tok script_lines scene_id rest scene_location st')
      else pass2_blocks mode tok script_lines scene_id rest scene_location st)"

fun pass2_scenes ::
  "parse_mode \<Rightarrow> (string \<Rightarrow> string list) \<Rightarrow> line_rec list \<Rightarrow> (nat \<times> scene) list
     \<Rightarrow> presence option \<Rightarrow> xstate \<Rightarrow> py_error + xstate"
where
  "pass2_scenes mode tok script_lines [] prior_scene_location st = Inr st"
| "pass2_scenes mode tok script_lines ((scene_id, sc) # rest) prior_scene_location st =
     (case pass2_location script_lines (xP st) scene_id (s_scene_blocks sc) None
             prior_scene_location [] of
        Inl e \<Rightarrow> Inl e
      | Inr (scene_location, prior', msgs) \<Rightarrow>
          (case pass2_blocks mode tok script_lines scene_id (s_scene_blocks sc) scene_location
                  (st\<lparr> xlog := xlog st @ msgs \<rparr>) of
             Inl e \<Rightarrow> Inl e
           | Inr st' \<Rightarrow> pass2_scenes mode tok script_lines rest prior' st'))"

text \<open>The last pass: the words of dialog spoken at a \<open>DISCUSS\<close> presence.\<close>

fun enclosing_block :: "block list \<Rightarrow> int \<Rightarrow> block option" where
  "enclosing_block [] first_line = None"
| "enclosing_block (blk # rest) first_line =
     (if b_first_line blk \<le> first_line \<and> b_last_line blk \<ge> first_line then Some blk
      else enclosing_block rest first_line)"

fun dialog_words_loop ::
  "line_rec list \<Rightarrow> int \<Rightarrow> (int \<times> ltype) list \<Rightarrow> nat \<Rightarrow> py_error + nat"
where
  "dialog_words_loop script_lines first_line [] dialog_words = Inr dialog_words"
| "dialog_words_loop script_lines first_line ((line_no, line_type) # rest) dialog_words =
     (if line_no < first_line then dialog_words_loop script_lines first_line rest dialog_words
      else if line_no = first_line then
        (case py_index script_lines (line_no - 1) of
           Inl e \<Rightarrow> Inl e
         | Inr line_dict \<Rightarrow>
             dialog_words_loop script_lines first_line rest
               (dialog_words + word_count (l_content line_dict)))
      else if line_type = DIALOG_HEADER then Inr dialog_words
      else
        (case py_index script_lines (line_no - 1) of
           Inl e \<Rightarrow> Inl e
         | Inr line_dict \<Rightarrow>
             dialog_words_loop script_lines first_line rest
               (dialog_words + word_count (l_content line_dict))))"

text \<open>
  \<open>None\<close> for a presence that the pass leaves as it is; an exception when the scene or
  the block is not found (\<open>dialog_block\<close> is \<open>None\<close> then) or a line is out of range.
\<close>

definition presence_dialog_words ::
  "script_structure \<Rightarrow> line_rec list \<Rightarrow> presence \<Rightarrow> py_error + nat option"
where
  "presence_dialog_words script script_lines presence =
     (let scene_id = w_scene_id (p_where presence);
          first_line = w_line_no (p_where presence)
      in if p_presence_type presence \<noteq> DISCUSS then Inr None
         else
           (case map_of (st_scenes script) scene_id of
              None \<Rightarrow> Inl KeyError
            | Some sc \<Rightarrow>
                (case enclosing_block (s_scene_blocks sc) first_line of
                   None \<Rightarrow> Inl TypeError
                 | Some dialog_block \<Rightarrow>
                     (case dialog_words_loop script_lines first_line
                             (sort_key fst (b_line_types dialog_block)) 0 of
                        Inl e \<Rightarrow> Inl e
                      | Inr n \<Rightarrow> Inr (Some n)))))"

fun dialog_words_check :: "script_structure \<Rightarrow> line_rec list \<Rightarrow> presence list \<Rightarrow> py_error option" where
  "dialog_words_check script script_lines [] = None"
| "dialog_words_check script script_lines (presence # rest) =
     (case presence_dialog_words script script_lines presence of
        Inl e \<Rightarrow> Some e
      | Inr _ \<Rightarrow> dialog_words_check script script_lines rest)"

text \<open>
  A presence is one dictionary that the log, both noun indices and the interactions
  share, so the word count set on it in the log shows wherever the presence is held.
  The new value is a function of the presence's fields, so the model sets it on every
  copy.
\<close>

definition augment :: "script_structure \<Rightarrow> line_rec list \<Rightarrow> presence \<Rightarrow> presence" where
  "augment script script_lines presence =
     (case presence_dialog_words script script_lines presence of
        Inr (Some n) \<Rightarrow> presence\<lparr> p_dialog_words := Some n \<rparr>
      | _ \<Rightarrow> presence)"

definition augment_interaction :: "(presence \<Rightarrow> presence) \<Rightarrow> interaction \<Rightarrow> interaction" where
  "augment_interaction f x = x\<lparr> i_a := map_option f (i_a x), i_b := f (i_b x) \<rparr>"

definition augment_Presences :: "(presence \<Rightarrow> presence) \<Rightarrow> Presences \<Rightarrow> Presences" where
  "augment_Presences f P =
     \<lparr> presences = map f (presences P),
       presence_ns =
         map (\<lambda>(name, e). (name, e\<lparr> ns_scenes := map (\<lambda>(k, ps). (k, map f ps)) (ns_scenes e) \<rparr>))
           (presence_ns P),
       presence_sn =
         map (\<lambda>(k, d). (k, map (\<lambda>(name, ps). (name, map f ps)) d)) (presence_sn P) \<rparr>"

definition augment_index ::
  "(presence \<Rightarrow> presence) \<Rightarrow> ('a \<times> ('b \<times> ('c \<times> interaction list) list) list) list
     \<Rightarrow> ('a \<times> ('b \<times> ('c \<times> interaction list) list) list) list"
where
  "augment_index f d =
     map (\<lambda>(k1, d1). (k1, map (\<lambda>(k2, d2).
            (k2, map (\<lambda>(k3, xs). (k3, map (augment_interaction f) xs)) d2)) d1)) d"

definition augment_Interactions :: "(presence \<Rightarrow> presence) \<Rightarrow> Interactions \<Rightarrow> Interactions" where
  "augment_Interactions f I =
     \<lparr> interactions = map (augment_interaction f) (interactions I),
       interaction_ns = augment_index f (interaction_ns I),
       interaction_sn = augment_index f (interaction_sn I) \<rparr>"

text \<open>
  The assignment \<open>mode = parse_mode\<close> of the source binds a local name: the functions
  called read the module's \<open>mode\<close>, so the argument \<open>parse_mode\<close> has no effect.
\<close>

definition compute_presence_and_interactions ::
  "parse_mode \<Rightarrow> (string \<Rightarrow> string list) \<Rightarrow> line_rec list \<Rightarrow> script_structure \<Rightarrow> parse_mode
     \<Rightarrow> py_error + (Presences \<times> Interactions \<times> diag list)"
where
  "compute_presence_and_interactions mode tok script_lines script parse_mode =
     (let ordered = sort_key fst (st_scenes script);
          st0 = \<lparr> xP = new_Presences, xI = new_Interactions, xlog = [] \<rparr>
      in case pass1_scenes mode tok script_lines ordered st0 of
           Inl e \<Rightarrow> Inl e
         | Inr st1 \<Rightarrow>
             (case pass2_scenes mode tok script_lines ordered None st1 of
                Inl e \<Rightarrow> Inl e
              | Inr st2 \<Rightarrow>
                  (case dialog_words_check script script_lines (presences (xP st2)) of
                     Some e \<Rightarrow> Inl e
                   | None \<Rightarrow>
                       Inr (augment_Presences (augment script script_lines) (xP st2),
                            augment_Interactions (augment script script_lines) (xI st2),
                            xlog st2))))"

text \<open>The pipeline: the segmenter, then the extraction engine on its result.\<close>

definition extraction_pipeline ::
  "parse_mode \<Rightarrow> (string \<Rightarrow> string list) \<Rightarrow> line_rec list
     \<Rightarrow> py_error + (script_structure \<times> Presences \<times> Interactions \<times> diag list)"
where
  "extraction_pipeline mode tok script_lines =
     (case parse_script_lines mode script_lines of
        Inl e \<Rightarrow> Inl e
      | Inr (script, msgs) \<Rightarrow>
          (case compute_presence_and_interactions mode tok script_lines script mode of
             Inl e \<Rightarrow> Inl e
           | Inr (P, I, msgs') \<Rightarrow> Inr (script, P, I, msgs @ msgs')))"

text \<open>
  The input of the runs below: lines numbered from 1 on one page, each content ending
  in its newline.  For a text that is one sentence the tokenizer returns the text,
  stripped, as the only sentence.
\<close>

definition numbered_from :: "int \<Rightarrow> string list \<Rightarrow> line_rec list" where
  "numbered_from n contents =
     map (\<lambda>(i, c). \<lparr> l_content = c @ [CHR 0x0A], l_line_no = n + int i, l_page_no = 1 \<rparr>)
       (enumerate 0 contents)"

definition one_sentence :: "string \<Rightarrow> string list" where
  "one_sentence t = (if strip t = [] then [] else [strip t])"

section \<open>Index consistency, as the invariant states it\<close>

text \<open>
  What is reached in an index under given keys; a missing key reaches nothing.
\<close>

definition lookup2 :: "('a \<times> ('b \<times> 'v list) list) list \<Rightarrow> 'a \<Rightarrow> 'b \<Rightarrow> 'v list" where
  "lookup2 d a b =
     (case map_of d a of
        None \<Rightarrow> []
      | Some da \<Rightarrow> (case map_of da b of None \<Rightarrow> [] | Some l \<Rightarrow> l))"

definition lookup3 ::
  "('a \<times> ('b \<times> ('c \<times> 'v list) list) list) list \<Rightarrow> 'a \<Rightarrow> 'b \<Rightarrow> 'c \<Rightarrow> 'v list"
where
  "lookup3 d a b c = (case map_of d a of None \<Rightarrow> [] | Some da \<Rightarrow> lookup2 da b c)"

text \<open>\<open>presence_ns[name][scene_id]\<close> and \<open>presence_sn[scene_id][name]\<close>.\<close>

definition presence_ns_at :: "Presences \<Rightarrow> string \<Rightarrow> nat \<Rightarrow> presence list" where
  "presence_ns_at P name scene_id =
     (case map_of (presence_ns P) name of
        None \<Rightarrow> []
      | Some e \<Rightarrow> (case map_of (ns_scenes e) scene_id of None \<Rightarrow> [] | Some l \<Rightarrow> l))"

definition presence_sn_at :: "Presences \<Rightarrow> nat \<Rightarrow> string \<Rightarrow> presence list" where
  "presence_sn_at P scene_id name = lookup2 (presence_sn P) scene_id name"

definition presence_indexed :: "Presences \<Rightarrow> presence \<Rightarrow> bool" where
  "presence_indexed P p =
     (p \<in> set (presence_ns_at P (p_name p) (w_scene_id (p_where p)))
      \<and> p \<in> set (presence_sn_at P (w_scene_id (p_where p)) (p_name p)))"

definition interaction_indexed :: "Interactions \<Rightarrow> interaction \<Rightarrow> bool" where
  "interaction_indexed I x =
     (case i_a x of
        None \<Rightarrow> False
      | Some a \<Rightarrow>
          (let an = p_name a; bn = p_name (i_b x); sc = w_scene_id (i_where x)
           in x \<in> set (lookup3 (interaction_ns I) an bn sc)
              \<and> x \<in> set (lookup3 (interaction_ns I) bn an sc)
              \<and> x \<in> set (lookup3 (interaction_sn I) sc an bn)
              \<and> x \<in> set (lookup3 (interaction_sn I) sc bn an)))"

section \<open>The speaker pairs that the DISCUSS loops visit\<close>



section \<open>The word counts, as the invariant states them\<close>

text \<open>The sum of counts that are all set; \<open>None\<close> when one of them is not set.\<close>

fun sum_counts :: "nat option list \<Rightarrow> nat option" where
  "sum_counts [] = Some 0"
| "sum_counts (None # rest) = None"
| "sum_counts (Some w # rest) = map_option ((+) w) (sum_counts rest)"

definition scene_counted :: "scene \<Rightarrow> bool" where
  "scene_counted sc =
     (case (s_total_words sc, s_dialog_words sc) of
        (Some words, Some spoken) \<Rightarrow>
          sum_counts (map b_total_words (s_scene_blocks sc)) = Some words
          \<and> list_all (\<lambda>b. b_block_type b = EMPTY \<longrightarrow> b_total_words b = Some 0)
               (s_scene_blocks sc)
          \<and> spoken \<le> words
      | _ \<Rightarrow> False)"

definition script_counted :: "script_structure \<Rightarrow> bool" where
  "script_counted script =
     (sum_counts (map (\<lambda>(scene_id, sc). s_total_words sc) (st_scenes script))
        = Some (st_total_words script)
      \<and> list_all (\<lambda>(scene_id, sc). scene_counted sc) (st_scenes script)
      \<and> st_dialog_words script \<le> st_total_words script)"

section \<open>Properties of the line predicates\<close>

lemma star_residuals_iff:
  "x \<in> set (star_residuals p s) \<longleftrightarrow> (\<exists>pre. s = pre @ x \<and> list_all p pre)"
proof (induction s)
  case Nil
  then show ?case by auto
next
  case (Cons c t)
  show ?case
  proof
    assume "x \<in> set (star_residuals p (c # t))"
    then consider "p c" "x \<in> set (star_residuals p t)" | "x = c # t"
      by (auto split: if_splits)
    then show "\<exists>pre. c # t = pre @ x \<and> list_all p pre"
    proof cases
      case 1
      then obtain pre where "t = pre @ x" "list_all p pre" using Cons.IH by blast
      with 1 have "c # t = (c # pre) @ x \<and> list_all p (c # pre)" by simp
      then show ?thesis by blast
    next
      case 2
      then have "c # t = [] @ x \<and> list_all p []" by simp
      then show ?thesis by blast
    qed
  next
    assume "\<exists>pre. c # t = pre @ x \<and> list_all p pre"
    then obtain pre where pre: "c # t = pre @ x" "list_all p pre" by blast
    show "x \<in> set (star_residuals p (c # t))"
    proof (cases pre)
      case Nil
      with pre have "x = c # t" by simp
      then show ?thesis by simp
    next
      case (Cons d pre')
      with pre have "p c" "t = pre' @ x" "list_all p pre'" by auto
      with Cons.IH show ?thesis by auto
    qed
  qed
qed

lemma residuals_suffix: "x \<in> set (residuals r s) \<Longrightarrow> \<exists>pre. s = pre @ x"
proof (induction r arbitrary: s x)
  case (Star p)
  then show ?case by (auto simp: star_residuals_iff)
next
  case (Cat r1 r2)
  then obtain y where y: "y \<in> set (residuals r1 s)" "x \<in> set (residuals r2 y)" by auto
  from Cat.IH(1)[OF y(1)] obtain p1 where "s = p1 @ y" by blast
  moreover from Cat.IH(2)[OF y(2)] obtain p2 where "y = p2 @ x" by blast
  ultimately have "s = (p1 @ p2) @ x" by simp
  then show ?case by blast
next
  case (Opt r)
  then show ?case by (auto 4 3)
qed (auto split: list.splits if_splits)

lemma is_empty_line_iff: "is_empty_line s \<longleftrightarrow> list_all is_space s"
proof
  assume "is_empty_line s"
  then obtain x where x: "x \<in> set (star_residuals is_space s)" "at_eos x"
    by (auto simp: is_empty_line_def search_anchored_def list_ex_iff)
  from x(1) obtain pre where pre: "s = pre @ x" "list_all is_space pre"
    using star_residuals_iff[of x is_space s] by blast
  have "is_space (CHR 0x0A)" by (simp add: is_space_def)
  with x(2) have "list_all is_space x" by (auto simp: at_eos_def)
  with pre show "list_all is_space s" by simp
next
  assume "list_all is_space s"
  then have "s = s @ [] \<and> list_all is_space s" by simp
  then have "[] \<in> set (star_residuals is_space s)"
    using star_residuals_iff[of "[]" is_space s] by blast
  moreover have "at_eos []" by (simp add: at_eos_def)
  ultimately show "is_empty_line s"
    unfolding is_empty_line_def search_anchored_def list_ex_iff residuals.simps by blast
qed

lemma residuals_Plus_first:
  "x \<in> set (residuals (Cat (Plus p) r) s) \<Longrightarrow> s \<noteq> [] \<and> p (hd s)"
  by (cases s) (auto simp: Plus_def split: if_splits)

lemma residuals_Cls_first:
  "x \<in> set (residuals (Cat (Cls p) r) s) \<Longrightarrow> s \<noteq> [] \<and> p (hd s)"
  by (cases s) (auto split: if_splits)

lemma is_direction_first: "is_direction s \<Longrightarrow> s \<noteq> [] \<and> is_space (hd s)"
  unfolding is_direction_def search_anchored_def list_ex_iff seq_def
  using residuals_Plus_first by (metis foldr.simps(2) o_apply)

lemma is_scene_header_first: "is_scene_header m s \<Longrightarrow> s \<noteq> [] \<and> \<not> is_space (hd s)"
proof -
  assume "is_scene_header m s"
  then have "search_anchored (seq [Cls not_space_lower, Plus not_lower]) s"
    by (cases m) (simp_all add: is_scene_header_def)
  then obtain x where "x \<in> set (residuals (Cat (Cls not_space_lower) (Cat (Plus not_lower) Eps)) s)"
    by (auto simp: search_anchored_def list_ex_iff seq_def)
  from residuals_Cls_first[OF this] show ?thesis by (simp add: not_space_lower_def)
qed

lemma is_direction_not_scene_header: "is_direction s \<Longrightarrow> \<not> is_scene_header m s"
  using is_direction_first is_scene_header_first by blast

lemma is_direction_colon: "is_direction s \<Longrightarrow> CHR '':'' \<in> set s"
proof -
  assume "is_direction s"
  then obtain x where x: "x \<in> set (residuals (Cat (Plus is_space) (Cat (Plus not_lower) (Cat (Lit CHR '':'') Eps))) s)"
    by (auto simp: is_direction_def search_anchored_def list_ex_iff seq_def)
  then obtain y z where y: "y \<in> set (residuals (Plus is_space) s)"
     and z: "z \<in> set (residuals (Plus not_lower) y)"
     and xz: "x \<in> set (residuals (Cat (Lit CHR '':'') Eps) z)"
    by auto
  from xz have "z = CHR '':'' # x" by (auto split: list.splits if_splits)
  moreover from residuals_suffix[OF y] obtain p1 where "s = p1 @ y" by blast
  moreover from residuals_suffix[OF z] obtain p2 where "y = p2 @ z" by blast
  ultimately show ?thesis by simp
qed

lemma is_direction_not_empty_line: "is_direction s \<Longrightarrow> \<not> is_empty_line s"
proof
  assume "is_direction s" "is_empty_line s"
  then have "CHR '':'' \<in> set s" "list_all is_space s"
    by (simp_all add: is_direction_colon is_empty_line_iff)
  then have "is_space (CHR '':'')" by (simp add: list_all_iff)
  then show False by (simp add: is_space_def)
qed

section \<open>The classifier on a direction line and on an empty line\<close>

text \<open>
  Claim C4, as the code has it.  A line of the direction shape starts with whitespace,
  so it is no scene heading, and it holds a colon, so it is not empty: with the prior
  classification \<open>(FRONT, FRONT)\<close> the first rule of the classifier returns
  \<open>(FRONT, FRONT)\<close> for it, without a message, and not an \<open>ERROR\<close> classification.  The
  segmenter then only extends the front span: block, scene and prior classification
  stay as they were, so the next line is classified against \<open>(FRONT, FRONT)\<close>.
\<close>

theorem direction_as_first_line_is_front:
  assumes "is_direction (l_content line_dict)"
  shows "get_types mode (l_content line_dict) next_line (FRONT, FRONT) = ((FRONT, FRONT), [])
       \<and> parse_step mode initial_pstate line_dict next_line =
           initial_pstate\<lparr> cur_line_no := Some (l_line_no line_dict),
                           front_first_line := 1, front_last_line := l_line_no line_dict \<rparr>
       \<and> prior_types (parse_step mode initial_pstate line_dict next_line) = (FRONT, FRONT)"
proof -
  have g: "get_types mode (l_content line_dict) next_line (FRONT, FRONT) = ((FRONT, FRONT), [])"
    using is_direction_not_scene_header[OF assms] is_direction_not_empty_line[OF assms]
    by (simp add: get_types_def)
  have p: "prior_types initial_pstate = (FRONT, FRONT)" by (simp add: initial_pstate_def)
  show ?thesis using g p by (simp add: parse_step_def Let_def)
qed

theorem direction_as_first_line_is_front_witness:
  "is_direction ''  CUT TO:''
   \<and> get_types STRICT ''  CUT TO:'' (Some ''INT. KITCHEN'') (FRONT, FRONT) = ((FRONT, FRONT), [])
   \<and> prior_types (parse_step STRICT initial_pstate
        \<lparr> l_content = ''  CUT TO:'', l_line_no = 1, l_page_no = 1 \<rparr> (Some ''INT. KITCHEN''))
       = (FRONT, FRONT)"
proof -
  have h: "is_direction (l_content \<lparr> l_content = ''  CUT TO:'', l_line_no = 1, l_page_no = 1 \<rparr>)"
    by code_simp
  note r = direction_as_first_line_is_front[OF h, of STRICT "Some ''INT. KITCHEN''"]
  show ?thesis using h r[THEN conjunct1] r[THEN conjunct2, THEN conjunct2] by simp
qed

text \<open>
  Claim C4 as it is stated fails: for the first line \<open>"  CUT TO:"\<close> the classifier
  returns \<open>(FRONT, FRONT)\<close>, not an \<open>ERROR\<close> classification.
\<close>

theorem direction_as_first_line_counterexample:
  "is_direction ''  CUT TO:''
   \<and> get_types STRICT ''  CUT TO:'' None (FRONT, FRONT) = ((FRONT, FRONT), [])
   \<and> fst (fst (get_types STRICT ''  CUT TO:'' None (FRONT, FRONT))) \<noteq> ERROR
   \<and> get_types FUZZY ''  CUT TO:'' None (FRONT, FRONT) = ((FRONT, FRONT), [])"
  by code_simp

lemma is_dialog_header_Nil: "\<not> is_dialog_header []"
  by (simp add: is_dialog_header_def search_anchored_def seq_def Plus_def)

text \<open>
  Claim C9.  For a line of whitespace only, when the rules before the empty-line rule
  do not apply (the line is not kept in the front matter, it is no page-break start
  marker, the prior line type is not \<open>CONTINUED\<close>, it is no page number): after
  \<open>(DIALOG, DIALOG_HEADER)\<close> the classifier returns the error classification
  \<open>(ERROR, EMPTY)\<close> with a message; after \<open>(DIALOG, DIALOG)\<close> with a lookahead line of the
  dialog-header shape, or after \<open>(DIALOG, RESUMED)\<close>, it returns \<open>(DIALOG, EMPTY)\<close>; in
  every other case it returns \<open>(EMPTY, EMPTY)\<close>.
\<close>

theorem empty_line_rule:
  assumes "is_empty_line line"
      and "\<not> (pb = FRONT \<and> \<not> is_scene_header mode line)"
      and "\<not> is_start_continue line"
      and "pl \<noteq> CONTINUED"
      and "\<not> is_page_num line"
  shows "get_types mode line next_line (pb, pl) =
           (if pb = DIALOG \<and> pl = DIALOG_HEADER then ((ERROR, EMPTY), [EmptyAfterDialogHeader])
            else if (pb = DIALOG \<and> pl = DIALOG
                     \<and> (\<exists>nxt. next_line = Some nxt \<and> is_dialog_header nxt))
                    \<or> (pb = DIALOG \<and> pl = RESUMED) then ((DIALOG, EMPTY), [])
            else ((EMPTY, EMPTY), []))"
proof -
  have n: "next_and next_line is_dialog_header
             \<longleftrightarrow> (\<exists>nxt. next_line = Some nxt \<and> is_dialog_header nxt)"
    using is_dialog_header_Nil by (cases next_line) (auto simp: next_and_def)
  show ?thesis
    using assms unfolding get_types_def n[symmetric] by (simp add: Let_def)
qed

theorem empty_line_rule_witness:
  "is_empty_line ''  '' \<and> \<not> (DIALOG = FRONT \<and> \<not> is_scene_header STRICT ''  '')
   \<and> \<not> is_start_continue ''  '' \<and> DIALOG \<noteq> CONTINUED \<and> \<not> is_page_num ''  ''
   \<and> get_types STRICT ''  '' (Some '' JOHN'') (DIALOG, DIALOG) = ((DIALOG, EMPTY), [])"
proof -
  have a: "is_empty_line ''  ''" by code_simp
  have b: "\<not> (DIALOG = FRONT \<and> \<not> is_scene_header STRICT ''  '')" by simp
  have c: "\<not> is_start_continue ''  ''" by code_simp
  have d: "DIALOG \<noteq> CONTINUED" by simp
  have e: "\<not> is_page_num ''  ''" by code_simp
  have f: "is_dialog_header '' JOHN''" by code_simp
  show ?thesis using a c e f empty_line_rule[OF a b c d e, of "Some '' JOHN''"] by simp
qed

section \<open>The offset mapper on a text without a newline\<close>

lemma split_nl_no_newline: "CHR 0x0A \<notin> set s \<Longrightarrow> split_nl s = [s]"
  by (induction s) auto

text \<open>
  Claim C10.  For a text that holds no newline \<open>get_line_offsets\<close> returns the empty
  table, whatever the first line number: the one entry is popped.  On that table
  \<open>get_line_for_offset\<close> returns no line for any position: it prints its message and
  the read of \<open>line_offsets[0]\<close> raises \<open>IndexError\<close>.
\<close>

theorem no_newline_no_line:
  assumes "CHR 0x0A \<notin> set text"
  shows "get_line_offsets text first_line = []
       \<and> get_line_for_offset (get_line_offsets text first_line) pos
           = ([PositionNotFound (int pos) []], Inl IndexError)"
proof -
  have "get_line_offsets text first_line = []"
    using split_nl_no_newline[OF assms] by (simp add: get_line_offsets_def)
  then show ?thesis by (simp add: get_line_for_offset_def py_index_def)
qed

theorem no_newline_no_line_witness:
  "CHR 0x0A \<notin> set ''John runs.'' \<and> get_line_offsets ''John runs.'' 4 = []
   \<and> get_line_for_offset (get_line_offsets ''John runs.'' 4) 0
       = ([PositionNotFound 0 []], Inl IndexError)"
proof -
  have h: "CHR 0x0A \<notin> set ''John runs.''" by simp
  note r = no_newline_no_line[OF h, of 4 0]
  show ?thesis using h r[THEN conjunct1] r[THEN conjunct2] by simp
qed

section \<open>Noun type promotion\<close>

lemma update_noun_type_cases:
  "update_noun_type old new =
     (if (old, new) \<in> {(THING, LOCATION), (THING, CHARACTER), (LOCATION, CHARACTER)} then (new, [])
      else if (old, new) = (CHARACTER, LOCATION) then (old, [CharacterInLocationContext])
      else (old, []))"
  by (cases old; cases new) (simp_all add: update_noun_type_def)

lemma update_noun_type_CHARACTER: "fst (update_noun_type CHARACTER new) = CHARACTER"
  by (cases new) (simp_all add: update_noun_type_def)

lemma map_of_update_presence_ns:
  "map_of (presence_ns (fst (update_presence P p))) n =
     (if n = p_name p then
        Some ((case map_of (presence_ns P) n of
                 None \<Rightarrow> \<lparr> ns_noun_type = p_noun_type p,
                            ns_scenes = [(w_scene_id (p_where p), [p])] \<rparr>
               | Some e \<Rightarrow>
                   e\<lparr> ns_scenes := AList.update (w_scene_id (p_where p))
                         ((case map_of (ns_scenes e) (w_scene_id (p_where p)) of
                             None \<Rightarrow> [] | Some l \<Rightarrow> l) @ [p]) (ns_scenes e) \<rparr>)
              \<lparr> ns_noun_type :=
                  fst (update_noun_type
                         (case map_of (presence_ns P) n of
                            None \<Rightarrow> p_noun_type p | Some e \<Rightarrow> ns_noun_type e)
                         (p_noun_type p)) \<rparr>)
      else map_of (presence_ns P) n)"
  by (simp add: update_presence_def Let_def update_conv' split: option.splits)

lemma update_presence_keeps_character:
  "is_known_character P n \<Longrightarrow> is_known_character (fst (update_presence P p)) n"
  unfolding is_known_character_def map_of_update_presence_ns
  by (auto simp: update_noun_type_CHARACTER split: option.splits)

lemma fold_update_presence_keeps_character:
  "is_known_character P n \<Longrightarrow>
   is_known_character (foldl (\<lambda>P p. fst (update_presence P p)) P ps) n"
  by (induction ps arbitrary: P) (simp_all add: update_presence_keeps_character)

lemma update_presence_rejected:
  assumes "is_known_character P (p_name p)" "p_noun_type p = LOCATION"
  shows "snd (update_presence P p) = [CharacterInLocationContext]"
    and "map_option ns_noun_type (map_of (presence_ns (fst (update_presence P p))) n)
         = map_option ns_noun_type (map_of (presence_ns P) n)"
proof -
  from assms(1) obtain e where e: "map_of (presence_ns P) (p_name p) = Some e"
    "ns_noun_type e = CHARACTER"
    by (auto simp: is_known_character_def split: option.splits)
  show "snd (update_presence P p) = [CharacterInLocationContext]"
    using e assms(2)
    by (simp add: update_presence_def Let_def update_noun_type_def split: option.splits)
  show "map_option ns_noun_type (map_of (presence_ns (fst (update_presence P p))) n)
         = map_option ns_noun_type (map_of (presence_ns P) n)"
    unfolding map_of_update_presence_ns using e
    by (simp add: update_noun_type_CHARACTER)
qed

section \<open>Index consistency\<close>

lemma lookup3_helper:
  "lookup3 (update_interaction_helper d a b c x) a' b' c' =
     (if a' = a \<and> b' = b \<and> c' = c then lookup3 d a b c @ [x] else lookup3 d a' b' c')"
  by (simp add: lookup3_def lookup2_def update_interaction_helper_def update_conv'
           split: option.splits)

lemma update_interaction_Inr:
  assumes "update_interaction I a b wh t = Inr I'"
  obtains pa where "a = Some pa"
    and "interactions I' = interactions I @ [get_interaction a b wh t]"
    and "interaction_ns I' =
           update_interaction_helper
             (update_interaction_helper (interaction_ns I) (p_name pa) (p_name b) (w_scene_id wh)
                (get_interaction a b wh t))
             (p_name b) (p_name pa) (w_scene_id wh) (get_interaction a b wh t)"
    and "interaction_sn I' =
           update_interaction_helper
             (update_interaction_helper (interaction_sn I) (w_scene_id wh) (p_name pa) (p_name b)
                (get_interaction a b wh t))
             (w_scene_id wh) (p_name b) (p_name pa) (get_interaction a b wh t)"
  using assms by (cases a) (auto simp: update_interaction_def Let_def)

lemma lookup3_helper_new: "x \<in> set (lookup3 (update_interaction_helper d a b c x) a b c)"
  by (simp add: lookup3_helper)

lemma lookup3_helper_old:
  "y \<in> set (lookup3 d a' b' c') \<Longrightarrow> y \<in> set (lookup3 (update_interaction_helper d a b c x) a' b' c')"
  by (auto simp: lookup3_helper)

lemma update_interaction_indexed_new:
  assumes "update_interaction I a b wh t = Inr I'"
  shows "interaction_indexed I' (get_interaction a b wh t)"
proof -
  define x where "x = get_interaction a b wh t"
  from assms obtain pa where pa: "a = Some pa"
    and ns: "interaction_ns I' =
           update_interaction_helper
             (update_interaction_helper (interaction_ns I) (p_name pa) (p_name b) (w_scene_id wh) x)
             (p_name b) (p_name pa) (w_scene_id wh) x"
    and sn: "interaction_sn I' =
           update_interaction_helper
             (update_interaction_helper (interaction_sn I) (w_scene_id wh) (p_name pa) (p_name b) x)
             (w_scene_id wh) (p_name b) (p_name pa) x"
    unfolding x_def by (rule update_interaction_Inr)
  have 1: "x \<in> set (lookup3 (interaction_ns I') (p_name pa) (p_name b) (w_scene_id wh))"
    unfolding ns by (intro lookup3_helper_old lookup3_helper_new)
  have 2: "x \<in> set (lookup3 (interaction_ns I') (p_name b) (p_name pa) (w_scene_id wh))"
    unfolding ns by (rule lookup3_helper_new)
  have 3: "x \<in> set (lookup3 (interaction_sn I') (w_scene_id wh) (p_name pa) (p_name b))"
    unfolding sn by (intro lookup3_helper_old lookup3_helper_new)
  have 4: "x \<in> set (lookup3 (interaction_sn I') (w_scene_id wh) (p_name b) (p_name pa))"
    unfolding sn by (rule lookup3_helper_new)
  have f: "i_a x = Some pa" "i_b x = b" "i_where x = wh"
    by (simp_all add: x_def get_interaction_def pa)
  show ?thesis
    using 1 2 3 4 unfolding x_def[symmetric] interaction_indexed_def f by simp
qed

lemma update_interaction_indexed_old:
  assumes "update_interaction I a b wh t = Inr I'" "interaction_indexed I y"
  shows "interaction_indexed I' y"
proof -
  define x where "x = get_interaction a b wh t"
  from assms(1) obtain pa where pa: "a = Some pa"
    and ns: "interaction_ns I' =
           update_interaction_helper
             (update_interaction_helper (interaction_ns I) (p_name pa) (p_name b) (w_scene_id wh) x)
             (p_name b) (p_name pa) (w_scene_id wh) x"
    and sn: "interaction_sn I' =
           update_interaction_helper
             (update_interaction_helper (interaction_sn I) (w_scene_id wh) (p_name pa) (p_name b) x)
             (w_scene_id wh) (p_name b) (p_name pa) x"
    unfolding x_def by (rule update_interaction_Inr)
  from assms(2) obtain ya where ya: "i_a y = Some ya"
    by (auto simp: interaction_indexed_def split: option.splits)
  have ns_old: "y \<in> set (lookup3 (interaction_ns I') k1 k2 k3)"
    if "y \<in> set (lookup3 (interaction_ns I) k1 k2 k3)" for k1 k2 k3
    unfolding ns using that by (intro lookup3_helper_old)
  have sn_old: "y \<in> set (lookup3 (interaction_sn I') k1 k2 k3)"
    if "y \<in> set (lookup3 (interaction_sn I) k1 k2 k3)" for k1 k2 k3
    unfolding sn using that by (intro lookup3_helper_old)
  show ?thesis
    using assms(2) unfolding interaction_indexed_def ya
    by (simp add: Let_def ns_old sn_old)
qed

lemma presence_ns_at_update:
  "presence_ns_at (fst (update_presence P p)) n sc =
     (if n = p_name p \<and> sc = w_scene_id (p_where p) then presence_ns_at P n sc @ [p]
      else presence_ns_at P n sc)"
  unfolding presence_ns_at_def map_of_update_presence_ns
  by (simp add: update_conv' split: option.splits)

lemma presence_sn_at_update:
  "presence_sn_at (fst (update_presence P p)) sc n =
     (if n = p_name p \<and> sc = w_scene_id (p_where p) then presence_sn_at P sc n @ [p]
      else presence_sn_at P sc n)"
  by (simp add: presence_sn_at_def lookup2_def update_presence_def Let_def update_conv'
           split: option.splits)

lemma update_presence_indexed_new: "presence_indexed (fst (update_presence P p)) p"
  by (simp add: presence_indexed_def presence_ns_at_update presence_sn_at_update)

lemma update_presence_indexed_old:
  "presence_indexed P q \<Longrightarrow> presence_indexed (fst (update_presence P p)) q"
  by (auto simp: presence_indexed_def presence_ns_at_update presence_sn_at_update)

lemma update_presence_log: "presences (fst (update_presence P p)) = presences P @ [p]"
  by (simp add: update_presence_def Let_def)

lemma update_interaction_None:
  "update_interaction I None b wh t
     = Inl (KeyError, I\<lparr> interactions := interactions I @ [get_interaction None b wh t] \<rparr>)"
  by (simp add: update_interaction_def Let_def)

lemma update_interaction_returns:
  "\<exists>I'. update_interaction I (Some pa) b wh t = Inr I'"
  by (simp add: update_interaction_def Let_def)

lemma unindexed_interaction:
  "\<not> interaction_indexed I (get_interaction None b wh t)"
  by (simp add: interaction_indexed_def get_interaction_def)

text \<open>
  Claim C6, insert by insert.  \<open>update_presence\<close> appends the presence to the log and makes
  it reachable under \<open>presence_ns[name][scene_id]\<close> and \<open>presence_sn[scene_id][name]\<close>, and
  keeps every presence of the log reachable.  \<open>update_interaction\<close> with a presence as
  first participant returns, appends the interaction to the log and makes it reachable on
  the four index paths, the name index and the scene index under both orders of the
  participants' names with the scene id of \<open>where\<close>, and keeps every interaction of the
  log reachable.  There the claim holds.  It fails for the insert with the scene location
  \<open>{}\<close> as first participant: the interaction is appended to the log, \<open>KeyError\<close> is
  raised and the indices are as they were, so the graph that is left holds an interaction
  of the log on no index path.
\<close>

theorem index_consistency_preserved:
  "presences (fst (update_presence P p)) = presences P @ [p]
   \<and> presence_indexed (fst (update_presence P p)) p
   \<and> (list_all (presence_indexed P) (presences P) \<longrightarrow>
        list_all (presence_indexed (fst (update_presence P p)))
          (presences (fst (update_presence P p))))
   \<and> (\<exists>I'. update_interaction I (Some pa) b wh t = Inr I'
        \<and> interactions I' = interactions I @ [get_interaction (Some pa) b wh t]
        \<and> interaction_indexed I' (get_interaction (Some pa) b wh t)
        \<and> (list_all (interaction_indexed I) (interactions I) \<longrightarrow>
             list_all (interaction_indexed I') (interactions I')))
   \<and> update_interaction I None b wh t
       = Inl (KeyError, I\<lparr> interactions := interactions I @ [get_interaction None b wh t] \<rparr>)
   \<and> \<not> interaction_indexed
          (I\<lparr> interactions := interactions I @ [get_interaction None b wh t] \<rparr>)
          (get_interaction None b wh t)
   \<and> \<not> list_all
          (interaction_indexed
             (I\<lparr> interactions := interactions I @ [get_interaction None b wh t] \<rparr>))
          (interactions (I\<lparr> interactions := interactions I @ [get_interaction None b wh t] \<rparr>))"
proof -
  have p: "list_all (presence_indexed P) (presences P) \<longrightarrow>
        list_all (presence_indexed (fst (update_presence P p)))
          (presences (fst (update_presence P p)))"
    by (simp add: update_presence_log list_all_iff update_presence_indexed_new
          update_presence_indexed_old)
  obtain I' where u: "update_interaction I (Some pa) b wh t = Inr I'"
    using update_interaction_returns by blast
  have l: "interactions I' = interactions I @ [get_interaction (Some pa) b wh t]"
    using u by (rule update_interaction_Inr)
  have c: "list_all (interaction_indexed I) (interactions I) \<longrightarrow>
             list_all (interaction_indexed I') (interactions I')"
    using l update_interaction_indexed_new[OF u] update_interaction_indexed_old[OF u]
    by (simp add: list_all_iff)
  have i: "\<exists>I'. update_interaction I (Some pa) b wh t = Inr I'
        \<and> interactions I' = interactions I @ [get_interaction (Some pa) b wh t]
        \<and> interaction_indexed I' (get_interaction (Some pa) b wh t)
        \<and> (list_all (interaction_indexed I) (interactions I) \<longrightarrow>
             list_all (interaction_indexed I') (interactions I'))"
    using u l update_interaction_indexed_new[OF u] c by blast
  have n: "\<not> interaction_indexed
          (I\<lparr> interactions := interactions I @ [get_interaction None b wh t] \<rparr>)
          (get_interaction None b wh t)"
    by (rule unindexed_interaction)
  have m: "\<not> list_all
          (interaction_indexed
             (I\<lparr> interactions := interactions I @ [get_interaction None b wh t] \<rparr>))
          (interactions (I\<lparr> interactions := interactions I @ [get_interaction None b wh t] \<rparr>))"
    using n by simp
  show ?thesis
    by (intro conjI update_presence_log update_presence_indexed_new p i
          update_interaction_None n m)
qed

theorem index_consistency_preserved_witness:
  "list_all (presence_indexed new_Presences) (presences new_Presences)
   \<and> list_all (presence_indexed
        (fst (update_presence new_Presences (get_presence (''JOHN'', LOCATION) SETTING 1 1 1))))
       (presences
        (fst (update_presence new_Presences (get_presence (''JOHN'', LOCATION) SETTING 1 1 1))))
   \<and> list_all (interaction_indexed new_Interactions) (interactions new_Interactions)
   \<and> (\<exists>I'. update_interaction new_Interactions
              (Some (get_presence (''JOHN'', LOCATION) SETTING 1 1 1))
              (get_presence (''JOHN'', CHARACTER) DISCUSS 1 1 5)
              \<lparr> w_scene_id = 1, w_page_no = 1, w_line_no = 5 \<rparr> SETTING = Inr I'
            \<and> list_all (interaction_indexed I') (interactions I')
            \<and> (\<exists>I''. update_interaction I' None
                         (get_presence (''JOHN'', CHARACTER) APPEAR 1 1 3)
                         \<lparr> w_scene_id = 1, w_page_no = 1, w_line_no = 3 \<rparr> SETTING
                       = Inl (KeyError, I'')
                   \<and> interaction_ns I'' = interaction_ns I'
                   \<and> interaction_sn I'' = interaction_sn I'
                   \<and> length (interactions I'') = 2
                   \<and> \<not> list_all (interaction_indexed I'') (interactions I'')))"
proof -
  define k where "k = get_presence (''JOHN'', LOCATION) SETTING 1 1 1"
  define j where "j = get_presence (''JOHN'', CHARACTER) DISCUSS 1 1 5"
  define wh where "wh = \<lparr> w_scene_id = 1, w_page_no = 1, w_line_no = 5 \<rparr>"
  define f where "f = get_presence (''JOHN'', CHARACTER) APPEAR 1 1 3"
  define wf where "wf = \<lparr> w_scene_id = 1, w_page_no = 1, w_line_no = 3 \<rparr>"
  have h1: "list_all (presence_indexed new_Presences) (presences new_Presences)"
    by (simp add: new_Presences_def)
  have h2: "list_all (interaction_indexed new_Interactions) (interactions new_Interactions)"
    by (simp add: new_Interactions_def)
  note r = index_consistency_preserved[of new_Presences k new_Interactions k j wh SETTING]
  note r3 = r[THEN conjunct2, THEN conjunct2, THEN conjunct1]
  note r4 = r[THEN conjunct2, THEN conjunct2, THEN conjunct2, THEN conjunct1]
  have p1: "list_all (presence_indexed (fst (update_presence new_Presences k)))
          (presences (fst (update_presence new_Presences k)))"
    using r3 h1 by (rule mp)
  from r4 obtain I' where
    u: "update_interaction new_Interactions (Some k) j wh SETTING = Inr I'"
    and l: "interactions I' = interactions new_Interactions @ [get_interaction (Some k) j wh SETTING]"
    and c: "list_all (interaction_indexed new_Interactions) (interactions new_Interactions) \<longrightarrow>
             list_all (interaction_indexed I') (interactions I')"
    by (elim exE conjE)
  have c1: "list_all (interaction_indexed I') (interactions I')"
    using c h2 by (rule mp)
  define I'' where "I'' = I'\<lparr> interactions := interactions I' @ [get_interaction None f wf SETTING] \<rparr>"
  note s = index_consistency_preserved[of new_Presences k I' k f wf SETTING]
  note s5 = s[THEN conjunct2, THEN conjunct2, THEN conjunct2, THEN conjunct2, THEN conjunct1,
      folded I''_def]
  note s7 = s[THEN conjunct2, THEN conjunct2, THEN conjunct2, THEN conjunct2, THEN conjunct2,
      THEN conjunct2, folded I''_def]
  have e: "interaction_ns I'' = interaction_ns I'" "interaction_sn I'' = interaction_sn I'"
    "length (interactions I'') = 2"
    by (simp_all add: I''_def l new_Interactions_def)
  have "\<exists>I''. update_interaction I' None f wf SETTING = Inl (KeyError, I'')
                   \<and> interaction_ns I'' = interaction_ns I'
                   \<and> interaction_sn I'' = interaction_sn I'
                   \<and> length (interactions I'') = 2
                   \<and> \<not> list_all (interaction_indexed I'') (interactions I'')"
    using s5 e s7 by (intro exI[of _ I''] conjI)
  then have inner: "update_interaction new_Interactions (Some k) j wh SETTING = Inr I'
            \<and> list_all (interaction_indexed I') (interactions I')
            \<and> (\<exists>I''. update_interaction I' None f wf SETTING = Inl (KeyError, I'')
                   \<and> interaction_ns I'' = interaction_ns I'
                   \<and> interaction_sn I'' = interaction_sn I'
                   \<and> length (interactions I'') = 2
                   \<and> \<not> list_all (interaction_indexed I'') (interactions I''))"
    using u c1 by (intro conjI)
  have
    "\<exists>I'. update_interaction new_Interactions (Some k) j wh SETTING = Inr I'
            \<and> list_all (interaction_indexed I') (interactions I')
            \<and> (\<exists>I''. update_interaction I' None f wf SETTING = Inl (KeyError, I'')
                   \<and> interaction_ns I'' = interaction_ns I'
                   \<and> interaction_sn I'' = interaction_sn I'
                   \<and> length (interactions I'') = 2
                   \<and> \<not> list_all (interaction_indexed I'') (interactions I''))"
    using inner by (rule exI[of _ I'])
  with h1 p1 h2 show ?thesis unfolding k_def j_def wh_def f_def wf_def by (intro conjI)
qed

section \<open>The DISCUSS interactions of a dialog block\<close>



















section \<open>The word counts\<close>

lemma sum_counts_append:
  "sum_counts (xs @ ys) =
     (case (sum_counts xs, sum_counts ys) of (Some a, Some b) \<Rightarrow> Some (a + b) | _ \<Rightarrow> None)"
proof (induction xs rule: sum_counts.induct)
  case 1
  then show ?case by (simp split: option.splits)
next
  case (2 rest)
  then show ?case by simp
next
  case (3 w rest)
  then show ?case by (simp split: option.splits)
qed

lemma count_lines_result:
  "count_lines ls bt rng bw dw = Inr (bw', dw') \<Longrightarrow>
   \<exists>w. bw' = bw + w \<and> dw' = dw + (if bt = DIALOG then w else 0)"
proof (induction rng arbitrary: bw dw)
  case Nil
  then show ?case by simp
next
  case (Cons l rng)
  from Cons.prems obtain ld where ld: "py_index ls l = Inr ld"
    by (auto split: sum.splits)
  define wc where "wc = word_count (l_content ld)"
  from Cons.prems ld have
    "count_lines ls bt rng (bw + wc) (if bt = DIALOG then dw + wc else dw) = Inr (bw', dw')"
    by (auto simp: wc_def Let_def split: if_splits)
  from Cons.IH[OF this] obtain w where
    "bw' = bw + wc + w" "dw' = (if bt = DIALOG then dw + wc else dw) + (if bt = DIALOG then w else 0)"
    by blast
  then have "bw' = bw + (wc + w) \<and> dw' = dw + (if bt = DIALOG then wc + w else 0)" by simp
  then show ?case by blast
qed

lemma count_blocks_result:
  "count_blocks ls bs done t d = Inr (bs', t', d') \<Longrightarrow>
   \<exists>new tw dlg. bs' = done @ new
      \<and> sum_counts (map b_total_words new) = Some tw
      \<and> list_all (\<lambda>b. b_block_type b = EMPTY \<longrightarrow> b_total_words b = Some 0) new
      \<and> map b_block_type new = map b_block_type bs
      \<and> t' = t + tw \<and> d' = d + dlg \<and> dlg \<le> tw"
proof (induction bs arbitrary: "done" t d)
  case Nil
  then have "bs' = done @ [] \<and> sum_counts (map b_total_words []) = Some 0 \<and> t' = t + 0 \<and> d' = d + 0"
    by simp
  then show ?case by force
next
  case (Cons b bs)
  show ?case
  proof (cases "b_block_type b = EMPTY")
    case True
    define b0 where "b0 = b\<lparr> b_total_words := Some 0 \<rparr>"
    from Cons.prems True have "count_blocks ls bs (done @ [b0]) t d = Inr (bs', t', d')"
      by (simp add: b0_def)
    from Cons.IH[OF this] obtain new tw dlg where n: "bs' = (done @ [b0]) @ new"
      "sum_counts (map b_total_words new) = Some tw"
      "list_all (\<lambda>b. b_block_type b = EMPTY \<longrightarrow> b_total_words b = Some 0) new"
      "map b_block_type new = map b_block_type bs"
      "t' = t + tw" "d' = d + dlg" "dlg \<le> tw"
      by blast
    have "bs' = done @ (b0 # new)
      \<and> sum_counts (map b_total_words (b0 # new)) = Some tw
      \<and> list_all (\<lambda>b. b_block_type b = EMPTY \<longrightarrow> b_total_words b = Some 0) (b0 # new)
      \<and> map b_block_type (b0 # new) = map b_block_type (b # bs)
      \<and> t' = t + tw \<and> d' = d + dlg \<and> dlg \<le> tw"
      using n by (simp add: b0_def)
    then show ?thesis by blast
  next
    case False
    from Cons.prems False obtain bw dw where
      cl: "count_lines ls (b_block_type b) [b_first_line b - 1 .. b_last_line b - 1] 0 d = Inr (bw, dw)"
      by (auto split: sum.splits)
    define b1 where "b1 = b\<lparr> b_total_words := Some bw \<rparr>"
    from Cons.prems False cl have "count_blocks ls bs (done @ [b1]) (t + bw) dw = Inr (bs', t', d')"
      by (simp add: b1_def)
    from Cons.IH[OF this] obtain new tw dlg where n: "bs' = (done @ [b1]) @ new"
      "sum_counts (map b_total_words new) = Some tw"
      "list_all (\<lambda>b. b_block_type b = EMPTY \<longrightarrow> b_total_words b = Some 0) new"
      "map b_block_type new = map b_block_type bs"
      "t' = t + bw + tw" "d' = dw + dlg" "dlg \<le> tw"
      by blast
    from count_lines_result[OF cl] obtain w where
      w: "bw = 0 + w" "dw = d + (if b_block_type b = DIALOG then w else 0)"
      by blast
    have "bs' = done @ (b1 # new)
      \<and> sum_counts (map b_total_words (b1 # new)) = Some (bw + tw)
      \<and> list_all (\<lambda>b. b_block_type b = EMPTY \<longrightarrow> b_total_words b = Some 0) (b1 # new)
      \<and> map b_block_type (b1 # new) = map b_block_type (b # bs)
      \<and> t' = t + (bw + tw)
      \<and> d' = d + ((if b_block_type b = DIALOG then w else 0) + dlg)
      \<and> (if b_block_type b = DIALOG then w else 0) + dlg \<le> bw + tw"
      using n w False by (simp add: b1_def)
    then show ?thesis by blast
  qed
qed

lemma count_scenes_result:
  "count_scenes ls scs done T D = Inr (scs', T', D') \<Longrightarrow>
   \<exists>new tw dlg. scs' = done @ new
      \<and> sum_counts (map (\<lambda>(scene_id, sc). s_total_words sc) new) = Some tw
      \<and> list_all (\<lambda>(scene_id, sc). scene_counted sc) new
      \<and> map fst new = map fst scs
      \<and> T' = T + tw \<and> D' = D + dlg \<and> dlg \<le> tw"
proof (induction scs arbitrary: "done" T D)
  case Nil
  then have "scs' = done @ []
      \<and> sum_counts (map (\<lambda>(scene_id, sc). s_total_words sc) []) = Some 0
      \<and> T' = T + 0 \<and> D' = D + 0"
    by simp
  then show ?case by force
next
  case (Cons e scs)
  obtain k sc where e: "e = (k, sc)" by (cases e)
  from Cons.prems e obtain blocks tw dw where
    cb: "count_blocks ls (s_scene_blocks sc) [] 0 0 = Inr (blocks, tw, dw)"
    by (auto split: sum.splits)
  define sc1 where "sc1 = sc\<lparr> s_scene_blocks := blocks, s_total_words := Some tw,
                               s_dialog_words := Some dw \<rparr>"
  from Cons.prems e cb have
    "count_scenes ls scs (done @ [(k, sc1)]) (T + tw) (D + dw) = Inr (scs', T', D')"
    by (simp add: sc1_def)
  from Cons.IH[OF this] obtain new tws dlg where n: "scs' = (done @ [(k, sc1)]) @ new"
      "sum_counts (map (\<lambda>(scene_id, sc). s_total_words sc) new) = Some tws"
      "list_all (\<lambda>(scene_id, sc). scene_counted sc) new"
      "map fst new = map fst scs"
      "T' = T + tw + tws" "D' = D + dw + dlg" "dlg \<le> tws"
    by blast
  from count_blocks_result[OF cb] obtain nb btw bdl where
    b: "blocks = [] @ nb" "sum_counts (map b_total_words nb) = Some btw"
       "list_all (\<lambda>b. b_block_type b = EMPTY \<longrightarrow> b_total_words b = Some 0) nb"
       "tw = 0 + btw" "dw = 0 + bdl" "bdl \<le> btw"
    by blast
  have sc1: "scene_counted sc1"
    using b by (simp add: scene_counted_def sc1_def)
  have "scs' = done @ ((k, sc1) # new)
      \<and> sum_counts (map (\<lambda>(scene_id, sc). s_total_words sc) ((k, sc1) # new)) = Some (tw + tws)
      \<and> list_all (\<lambda>(scene_id, sc). scene_counted sc) ((k, sc1) # new)
      \<and> map fst ((k, sc1) # new) = map fst (e # scs)
      \<and> T' = T + (tw + tws) \<and> D' = D + (dw + dlg) \<and> dw + dlg \<le> tw + tws"
    using n sc1 b e by (simp add: sc1_def)
  then show ?case by blast
qed

text \<open>
  Claim C7.  When \<open>parse_script_lines\<close> returns, the document's \<open>total_words\<close> is the sum
  of the scenes' \<open>total_words\<close>, every scene's \<open>total_words\<close> is the sum of its blocks'
  \<open>total_words\<close>, which is zero for an \<open>EMPTY\<close> block, and \<open>dialog_words\<close> is at most
  \<open>total_words\<close> in every scene and in the document.
\<close>

theorem word_counts_add_up:
  assumes "parse_script_lines mode script_lines = Inr (script, msgs)"
  shows "script_counted script"
proof -
  define st where "st = parse_loop mode initial_pstate script_lines"
  define cs where "cs = (append_block (current_scene st) (current_block st))
                               \<lparr> s_last_line := cur_line_no st \<rparr>"
  define all_scenes where "all_scenes = AList.update (s_scene_number cs) cs (scenes st)"
  from assms obtain counted tw dw where
    c: "count_scenes script_lines (AList.delete 0 all_scenes) [] 0 0 = Inr (counted, tw, dw)"
    and s: "script = \<lparr> st_front_first_line = front_first_line st,
                       st_front_last_line = front_last_line st,
                       st_scenes = counted, st_total_words = tw, st_dialog_words = dw \<rparr>"
    unfolding parse_script_lines_def st_def[symmetric] Let_def cs_def[symmetric]
      all_scenes_def[symmetric]
    by (auto split: option.splits sum.splits)
  from count_scenes_result[OF c] obtain new t d where
    "counted = [] @ new"
    "sum_counts (map (\<lambda>(scene_id, sc). s_total_words sc) new) = Some t"
    "list_all (\<lambda>(scene_id, sc). scene_counted sc) new"
    "tw = 0 + t" "dw = 0 + d" "d \<le> t"
    by blast
  then show ?thesis by (simp add: script_counted_def s)
qed

theorem word_counts_add_up_witness:
  "(\<exists>script msgs.
      parse_script_lines STRICT
        (numbered_from 1 [''INT. KITCHEN - DAY'', '''', '' JOHN'', '' Hello there.'', '''',
                          ''John leaves.'']) = Inr (script, msgs)
      \<and> script_counted script \<and> st_total_words script = 9 \<and> st_dialog_words script = 3)"
proof -
  obtain script msgs where
    p: "parse_script_lines STRICT
          (numbered_from 1 [''INT. KITCHEN - DAY'', '''', '' JOHN'', '' Hello there.'', '''',
                            ''John leaves.'']) = Inr (script, msgs)"
    and w: "st_total_words script = 9" "st_dialog_words script = 3"
  proof -
    have "case parse_script_lines STRICT
          (numbered_from 1 [''INT. KITCHEN - DAY'', '''', '' JOHN'', '' Hello there.'', '''',
                            ''John leaves.'']) of
            Inl e \<Rightarrow> False
          | Inr (script, msgs) \<Rightarrow> st_total_words script = 9 \<and> st_dialog_words script = 3"
      by code_simp
    then show ?thesis using that by (auto split: sum.splits)
  qed
  from word_counts_add_up[OF p] p w show ?thesis by blast
qed

section \<open>Noun types over a run of the engine\<close>

lemma x_update_presence_keeps:
  "is_known_character (xP st) n \<Longrightarrow> is_known_character (xP (x_update_presence st p)) n"
  by (simp add: x_update_presence_def Let_def update_presence_keeps_character)

lemma x_update_interaction_xP:
  "x_update_interaction st a b wh t = Inr st' \<Longrightarrow> xP st' = xP st"
  by (auto simp: x_update_interaction_def split: sum.splits prod.splits)

lemma names_loop_keeps:
  "names_loop ls tab pt sid loc po nos sp res st = Inr (sp', res', st') \<Longrightarrow>
   is_known_character (xP st) n \<Longrightarrow> is_known_character (xP st') n"
proof (induction nos arbitrary: sp res st)
  case Nil
  then show ?case by simp
next
  case (Cons e nos)
  obtain name offset where e: "e = (name, offset)" by (cases e)
  define st1 where "st1 = st\<lparr> xlog := xlog st @ fst (get_line_for_offset tab (po + offset)) \<rparr>"
  from Cons.prems(1) e obtain line_no where
    l: "snd (get_line_for_offset tab (po + offset)) = Inr line_no"
    by (auto simp: Let_def split: sum.splits)
  from Cons.prems(1) e l obtain page_no where pg: "get_page_for_line ls line_no = Inr page_no"
    by (auto simp: Let_def split: sum.splits)
  define p where "p = get_presence (name, get_noun_type_for_name (xP st1) name THING) pt sid
                        page_no line_no"
  define st2 where "st2 = x_update_presence st1 p"
  from Cons.prems(1) e l pg obtain st3 where
    u: "x_update_interaction st2 loc p (p_where p) SETTING = Inr st3"
    by (auto simp: Let_def st1_def p_def st2_def split: sum.splits)
  from Cons.prems(1) e l pg u have
    r: "names_loop ls tab pt sid loc po nos (sp @ [p]) (res @ [p]) st3 = Inr (sp', res', st')"
    by (simp add: Let_def st1_def[symmetric] p_def[symmetric] st2_def[symmetric])
  have "is_known_character (xP st1) n" using Cons.prems(2) by (simp add: st1_def)
  then have "is_known_character (xP st2) n" unfolding st2_def by (rule x_update_presence_keeps)
  then have "is_known_character (xP st3) n" using x_update_interaction_xP[OF u] by simp
  from Cons.IH[OF r this] show ?case .
qed

lemma pairs_loop_xP: "pairs_loop ps st = Inr st' \<Longrightarrow> xP st' = xP st"
proof (induction ps arbitrary: st)
  case Nil
  then show ?case by simp
next
  case (Cons e ps)
  obtain p1 p2 where e: "e = (p1, p2)" by (cases e)
  from Cons.prems e obtain st1 where
    u: "x_update_interaction st (Some p1) p2 (p_where p1) APPEAR = Inr st1"
    and r: "pairs_loop ps st1 = Inr st'"
    by (auto split: sum.splits)
  from Cons.IH[OF r] x_update_interaction_xP[OF u] show ?case by simp
qed

lemma mention_loop_xP: "mention_loop speaker things st = Inr st' \<Longrightarrow> xP st' = xP st"
proof (induction things arbitrary: st)
  case Nil
  then show ?case by simp
next
  case (Cons thing things)
  from Cons.prems obtain st1 where
    u: "x_update_interaction st (Some speaker) thing (p_where thing) MENTION = Inr st1"
    and r: "mention_loop speaker things st1 = Inr st'"
    by (auto split: sum.splits)
  from Cons.IH[OF r] x_update_interaction_xP[OF u] show ?case by simp
qed

lemma sentences_loop_keeps:
  "sentences_loop mode ls tab pt sid loc sents po res st = Inr (res', st') \<Longrightarrow>
   is_known_character (xP st) n \<Longrightarrow> is_known_character (xP st') n"
proof (induction sents arbitrary: po res st)
  case Nil
  then show ?case by simp
next
  case (Cons sent sents)
  define nos where "nos = get_name_offsets (xP st) sent po
      (case mode of FUZZY \<Rightarrow> discover_nouns (xP st) sent THING | STRICT \<Rightarrow> [])"
  from Cons.prems(1) obtain sp res1 st1 where
    nl: "names_loop ls tab pt sid loc po nos [] res st = Inr (sp, res1, st1)"
    by (auto simp: Let_def nos_def split: sum.splits)
  from Cons.prems(1) nl obtain st2 where
    pl: "pairs_loop (combinations2 sp) st1 = Inr st2"
    by (auto simp: Let_def nos_def[symmetric] split: sum.splits)
  from Cons.prems(1) nl pl have
    r: "sentences_loop mode ls tab pt sid loc sents (po + (length sent + 1)) res1 st2
        = Inr (res', st')"
    by (simp add: Let_def nos_def[symmetric])
  have "is_known_character (xP st1) n" using names_loop_keeps[OF nl Cons.prems(2)] .
  then have "is_known_character (xP st2) n" using pairs_loop_xP[OF pl] by simp
  from Cons.IH[OF r this] show ?case .
qed

lemma for_lines_keeps:
  "update_presence_and_interactions_for_lines mode tok st ls fl ll sid loc pt = Inr (found, st')
   \<Longrightarrow> is_known_character (xP st) n \<Longrightarrow> is_known_character (xP st') n"
  unfolding update_presence_and_interactions_for_lines_def Let_def
  by (rule sentences_loop_keeps)

lemma flush_dialog_keeps:
  "flush_dialog mode tok st ls fl ll sid loc speaker = Inr st' \<Longrightarrow>
   is_known_character (xP st) n \<Longrightarrow> is_known_character (xP st') n"
proof -
  assume f: "flush_dialog mode tok st ls fl ll sid loc speaker = Inr st'"
    and k: "is_known_character (xP st) n"
  from f obtain mentioned st1 where
    l: "update_presence_and_interactions_for_lines mode tok st ls fl ll sid loc MENTION
          = Inr (mentioned, st1)"
    by (auto simp: flush_dialog_def split: sum.splits)
  have k1: "is_known_character (xP st1) n" using for_lines_keeps[OF l k] .
  show ?thesis
  proof (cases speaker)
    case None
    with f l have "st' = st1" by (simp add: flush_dialog_def)
    with k1 show ?thesis by simp
  next
    case (Some s)
    with f l have "mention_loop s mentioned st1 = Inr st'" by (simp add: flush_dialog_def)
    from mention_loop_xP[OF this] k1 show ?thesis by simp
  qed
qed

lemma dialog_loop_keeps:
  "dialog_loop mode tok ls sid loc lts d = Inr d' \<Longrightarrow>
   is_known_character (xP (dx d)) n \<Longrightarrow> is_known_character (xP (dx d')) n"
proof (induction lts arbitrary: d)
  case Nil
  then show ?case by simp
next
  case (Cons e lts)
  obtain line_no line_type where e: "e = (line_no, line_type)" by (cases e)
  show ?case
  proof (cases "line_type = DIALOG_HEADER")
    case True
    from Cons.prems(1) e True obtain line_dict where
      ld: "py_index ls (line_no - 1) = Inr line_dict"
      by (auto split: sum.splits)
    define character where "character = get_character_from_dialog_header (l_content line_dict)"
    show ?thesis
    proof (cases "character = []")
      case empty: True
      define d1 where
        "d1 = d\<lparr> dx := (dx d)\<lparr> xlog := xlog (dx d) @ [EmptyCharacterName line_no] \<rparr> \<rparr>"
      from Cons.prems(1) e True ld empty have "dialog_loop mode tok ls sid loc lts d1 = Inr d'"
        by (simp add: character_def[symmetric] d1_def)
      moreover have "is_known_character (xP (dx d1)) n"
        using Cons.prems(2) by (simp add: d1_def)
      ultimately show ?thesis by (rule Cons.IH)
    next
      case named: False
      from Cons.prems(1) e True ld named obtain page_no where
        pg: "get_page_for_line ls line_no = Inr page_no"
        by (auto simp: character_def[symmetric] Let_def split: sum.splits)
      define speaker where
        "speaker = get_presence (character, CHARACTER) DISCUSS sid page_no line_no"
      define st1 where "st1 = x_update_presence (dx d) speaker"
      from Cons.prems(1) e True ld named pg obtain st2 where
        u: "x_update_interaction st1 loc speaker (p_where speaker) SETTING = Inr st2"
        by (auto simp: character_def[symmetric] Let_def speaker_def st1_def split: sum.splits)
      define d1 where "d1 = d\<lparr> speakers_present := speakers_present d @ [speaker], dx := st2 \<rparr>"
      have k2: "is_known_character (xP st2) n"
        using x_update_presence_keeps[OF Cons.prems(2), of speaker]
          x_update_interaction_xP[OF u] by (simp add: st1_def)
      note step = Cons.prems(1)[unfolded e dialog_loop.simps, simplified True ld, simplified,
          folded character_def, simplified named pg Let_def, simplified,
          folded speaker_def, folded st1_def, simplified u, simplified, folded d1_def]
      show ?thesis
      proof (cases "running_dialog d")
        case running: True
        then have rd1: "running_dialog d1" by (simp add: d1_def)
        from step running rd1 obtain st3 where
          f: "flush_dialog mode tok st2 ls (first_dialog_line d1) (last_dialog_line d1) sid loc
                (prior_speaker d1) = Inr st3"
          and r: "dialog_loop mode tok ls sid loc lts
                (d1\<lparr> dx := st3, running_dialog := False, prior_speaker := Some speaker \<rparr>) = Inr d'"
          by (auto split: sum.splits)
        have "is_known_character (xP st3) n" using flush_dialog_keeps[OF f k2] .
        then have "is_known_character
            (xP (dx (d1\<lparr> dx := st3, running_dialog := False, prior_speaker := Some speaker \<rparr>))) n"
          by simp
        from Cons.IH[OF r this] show ?thesis .
      next
        case stopped: False
        then have rd1: "\<not> running_dialog d1" by (simp add: d1_def)
        from step stopped rd1 have
          r: "dialog_loop mode tok ls sid loc lts (d1\<lparr> prior_speaker := Some speaker \<rparr>) = Inr d'"
          by simp
        have "is_known_character (xP (dx (d1\<lparr> prior_speaker := Some speaker \<rparr>))) n"
          using k2 by (simp add: d1_def)
        from Cons.IH[OF r this] show ?thesis .
      qed
    qed
  next
    case False
    show ?thesis
    proof (cases "line_type = DIALOG")
      case True
      from Cons.prems(1) e True obtain d1 where
        r: "dialog_loop mode tok ls sid loc lts d1 = Inr d'" and x: "dx d1 = dx d"
        by (cases "running_dialog d") auto
      from Cons.IH[OF r] x Cons.prems(2) show ?thesis by simp
    next
      case other: False
      from Cons.prems(1) e False other have "dialog_loop mode tok ls sid loc lts d = Inr d'"
        by simp
      from Cons.IH[OF this Cons.prems(2)] show ?thesis .
    qed
  qed
qed

lemma for_dialog_keeps:
  assumes "update_presence_and_interactions_for_dialog mode tok st ls sid loc blk = Inr st'"
      and "is_known_character (xP st) n"
  shows "is_known_character (xP st') n"
proof -
  define d0 where "d0 = \<lparr> speakers_present = [], running_dialog = False, prior_speaker = None,
               first_dialog_line = 0, last_dialog_line = 0, dx = st \<rparr>"
  from assms(1) obtain d where
    dl: "dialog_loop mode tok ls sid loc (sort_key fst (b_line_types blk)) d0 = Inr d"
    by (auto simp: update_presence_and_interactions_for_dialog_def d0_def split: sum.splits)
  have kd: "is_known_character (xP (dx d)) n"
    using dialog_loop_keeps[OF dl] assms(2) by (simp add: d0_def)
  from assms(1) dl obtain st1 where
    f: "(if running_dialog d
         then flush_dialog mode tok (dx d) ls (first_dialog_line d) (last_dialog_line d) sid loc
                (prior_speaker d)
         else Inr (dx d)) = Inr st1"
    by (auto simp: update_presence_and_interactions_for_dialog_def d0_def[symmetric]
          split: sum.splits)
  have k1: "is_known_character (xP st1) n"
  proof (cases "running_dialog d")
    case True
    with f have "flush_dialog mode tok (dx d) ls (first_dialog_line d) (last_dialog_line d) sid
                   loc (prior_speaker d) = Inr st1" by simp
    from flush_dialog_keeps[OF this kd] show ?thesis .
  next
    case False
    with f kd show ?thesis by simp
  qed
  from assms(1) dl f obtain I' where "st' = st1\<lparr> xI := I' \<rparr>"
    by (auto simp: update_presence_and_interactions_for_dialog_def d0_def[symmetric]
          split: sum.splits)
  with k1 show ?thesis by simp
qed

lemma pass1_blocks_keeps:
  "pass1_blocks mode tok ls sid blks loc st = Inr st' \<Longrightarrow>
   is_known_character (xP st) n \<Longrightarrow> is_known_character (xP st') n"
proof (induction blks arbitrary: loc st)
  case Nil
  then show ?case by simp
next
  case (Cons blk blks)
  show ?case
  proof (cases "b_block_type blk = SCENE_HEADING")
    case True
    from Cons.prems(1) True obtain line where l: "py_index ls (b_first_line blk - 1) = Inr line"
      by (auto split: sum.splits)
    define name where "name = get_scene_location (l_content line)"
    define location where
      "location = get_presence (name, LOCATION) SETTING sid (l_page_no line) (l_line_no line)"
    show ?thesis
    proof (cases "is_known_character (xP st) name")
      case known: True
      from Cons.prems(1) True l known have
        r: "pass1_blocks mode tok ls sid blks (Some location)
              (st\<lparr> xlog := xlog st @ [HeadingNamesCharacter name] \<rparr>) = Inr st'"
        by (simp add: Let_def name_def[symmetric] location_def[symmetric])
      have "is_known_character (xP (st\<lparr> xlog := xlog st @ [HeadingNamesCharacter name] \<rparr>)) n"
        using Cons.prems(2) by simp
      from Cons.IH[OF r this] show ?thesis .
    next
      case unknown: False
      from Cons.prems(1) True l unknown have
        r: "pass1_blocks mode tok ls sid blks (Some location) (x_update_presence st location)
              = Inr st'"
        by (simp add: Let_def name_def[symmetric] location_def[symmetric])
      from Cons.IH[OF r x_update_presence_keeps[OF Cons.prems(2)]] show ?thesis .
    qed
  next
    case False
    show ?thesis
    proof (cases "b_block_type blk = DIALOG")
      case True
      from Cons.prems(1) False True obtain st1 where
        d: "update_presence_and_interactions_for_dialog mode tok st ls sid loc blk = Inr st1"
        and r: "pass1_blocks mode tok ls sid blks loc st1 = Inr st'"
        by (auto split: sum.splits)
      from Cons.IH[OF r for_dialog_keeps[OF d Cons.prems(2)]] show ?thesis .
    next
      case other: False
      from Cons.prems(1) False other have "pass1_blocks mode tok ls sid blks loc st = Inr st'"
        by simp
      from Cons.IH[OF this Cons.prems(2)] show ?thesis .
    qed
  qed
qed

lemma pass1_scenes_keeps:
  "pass1_scenes mode tok ls scs st = Inr st' \<Longrightarrow>
   is_known_character (xP st) n \<Longrightarrow> is_known_character (xP st') n"
proof (induction scs arbitrary: st)
  case Nil
  then show ?case by simp
next
  case (Cons e scs)
  obtain sid sc where e: "e = (sid, sc)" by (cases e)
  from Cons.prems(1) e obtain st1 where
    b: "pass1_blocks mode tok ls sid (s_scene_blocks sc) None st = Inr st1"
    and r: "pass1_scenes mode tok ls scs st1 = Inr st'"
    by (auto split: sum.splits)
  from Cons.IH[OF r pass1_blocks_keeps[OF b Cons.prems(2)]] show ?case .
qed

lemma pass2_blocks_keeps:
  "pass2_blocks mode tok ls sid blks loc st = Inr st' \<Longrightarrow>
   is_known_character (xP st) n \<Longrightarrow> is_known_character (xP st') n"
proof (induction blks arbitrary: st)
  case Nil
  then show ?case by simp
next
  case (Cons blk blks)
  show ?case
  proof (cases "b_block_type blk \<in> {ACTION, DIRECTION}")
    case True
    from Cons.prems(1) True obtain found st1 where
      l: "update_presence_and_interactions_for_lines mode tok st ls (b_first_line blk)
            (b_last_line blk) sid loc APPEAR = Inr (found, st1)"
      and r: "pass2_blocks mode tok ls sid blks loc st1 = Inr st'"
      by (auto split: sum.splits)
    from Cons.IH[OF r for_lines_keeps[OF l Cons.prems(2)]] show ?thesis .
  next
    case False
    with Cons.prems(1) have "pass2_blocks mode tok ls sid blks loc st = Inr st'" by simp
    from Cons.IH[OF this Cons.prems(2)] show ?thesis .
  qed
qed

lemma pass2_scenes_keeps:
  "pass2_scenes mode tok ls scs prior st = Inr st' \<Longrightarrow>
   is_known_character (xP st) n \<Longrightarrow> is_known_character (xP st') n"
proof (induction scs arbitrary: prior st)
  case Nil
  then show ?case by simp
next
  case (Cons e scs)
  obtain sid sc where e: "e = (sid, sc)" by (cases e)
  from Cons.prems(1) e obtain loc prior' msgs st1 where
    b: "pass2_blocks mode tok ls sid (s_scene_blocks sc) loc (st\<lparr> xlog := xlog st @ msgs \<rparr>)
          = Inr st1"
    and r: "pass2_scenes mode tok ls scs prior' st1 = Inr st'"
    by (auto split: sum.splits)
  have "is_known_character (xP (st\<lparr> xlog := xlog st @ msgs \<rparr>)) n"
    using Cons.prems(2) by simp
  from Cons.IH[OF r pass2_blocks_keeps[OF b this]] show ?case .
qed

lemma augment_Presences_known:
  "is_known_character (augment_Presences f P) n = is_known_character P n"
proof -
  have "map_of (presence_ns (augment_Presences f P)) n
        = map_option (\<lambda>e. e\<lparr> ns_scenes := map (\<lambda>(k, ps). (k, map f ps)) (ns_scenes e) \<rparr>)
            (map_of (presence_ns P) n)"
    by (simp add: augment_Presences_def map_of_map)
  then show ?thesis
    by (cases "map_of (presence_ns P) n") (simp_all add: is_known_character_def)
qed

lemma compute_keeps:
  assumes "pass1_scenes mode tok ls (sort_key fst (st_scenes script))
             \<lparr> xP = new_Presences, xI = new_Interactions, xlog = [] \<rparr> = Inr st1"
      and "is_known_character (xP st1) n"
      and "compute_presence_and_interactions mode tok ls script pm = Inr (P, I, msgs)"
  shows "is_known_character P n"
proof -
  from assms(1,3) obtain st2 where
    p2: "pass2_scenes mode tok ls (sort_key fst (st_scenes script)) None st1 = Inr st2"
    and P: "P = augment_Presences (augment script ls) (xP st2)"
    by (auto simp: compute_presence_and_interactions_def Let_def split: sum.splits option.splits)
  from pass2_scenes_keeps[OF p2 assms(2)] show ?thesis
    unfolding P augment_Presences_known .
qed

text \<open>
  Claim C5.  \<open>update_noun_type\<close> changes the type only for \<open>THING\<close> to \<open>LOCATION\<close>,
  \<open>THING\<close> to \<open>CHARACTER\<close> and \<open>LOCATION\<close> to \<open>CHARACTER\<close>, and returns the old type
  otherwise.  The registry's type of a name is written by \<open>update_presence\<close> only: a name
  that is a \<open>CHARACTER\<close> there stays one after any insert and after any sequence of
  inserts, so through the sentence-level extractor, the processing of a dialog block and
  both passes, up to the registry that \<open>compute_presence_and_interactions\<close> returns.  An insert of a \<open>LOCATION\<close> presence for a name that is a \<open>CHARACTER\<close> prints
  the message and leaves the registry's type of every name as it was.
\<close>

theorem noun_type_promotion_monotonic:
  "(fst (update_noun_type old new) \<noteq> old \<longrightarrow>
      (old, new) \<in> {(THING, LOCATION), (THING, CHARACTER), (LOCATION, CHARACTER)})
   \<and> fst (update_noun_type old new) \<in> {old, new}
   \<and> update_noun_type THING LOCATION = (LOCATION, [])
   \<and> update_noun_type THING CHARACTER = (CHARACTER, [])
   \<and> update_noun_type LOCATION CHARACTER = (CHARACTER, [])
   \<and> update_noun_type CHARACTER LOCATION = (CHARACTER, [CharacterInLocationContext])
   \<and> (is_known_character P n \<longrightarrow>
        is_known_character (fst (update_presence P p)) n
        \<and> is_known_character (foldl (\<lambda>P p. fst (update_presence P p)) P ps) n)
   \<and> (is_known_character P (p_name p) \<and> p_noun_type p = LOCATION \<longrightarrow>
        snd (update_presence P p) = [CharacterInLocationContext]
        \<and> (\<forall>m. map_option ns_noun_type (map_of (presence_ns (fst (update_presence P p))) m)
                 = map_option ns_noun_type (map_of (presence_ns P) m)))
   \<and> (update_presence_and_interactions_for_lines mode tok st ls fl ll sid loc pt = Inr (found, st')
        \<and> is_known_character (xP st) n \<longrightarrow> is_known_character (xP st') n)
   \<and> (update_presence_and_interactions_for_dialog mode tok st ls sid loc blk = Inr st'
        \<and> is_known_character (xP st) n \<longrightarrow> is_known_character (xP st') n)
   \<and> (pass1_scenes mode tok ls scs st = Inr st' \<and> is_known_character (xP st) n \<longrightarrow>
        is_known_character (xP st') n)
   \<and> (pass2_scenes mode tok ls scs prior st = Inr st' \<and> is_known_character (xP st) n \<longrightarrow>
        is_known_character (xP st') n)
   \<and> (pass1_scenes mode tok ls (sort_key fst (st_scenes script))
          \<lparr> xP = new_Presences, xI = new_Interactions, xlog = [] \<rparr> = Inr st
        \<and> is_known_character (xP st) n
        \<and> compute_presence_and_interactions mode tok ls script pm = Inr (P', I, msgs) \<longrightarrow>
        is_known_character P' n)"
proof -
  have a: "fst (update_noun_type old new) \<noteq> old \<longrightarrow>
      (old, new) \<in> {(THING, LOCATION), (THING, CHARACTER), (LOCATION, CHARACTER)}"
    by (simp add: update_noun_type_cases)
  have b: "fst (update_noun_type old new) \<in> {old, new}"
    by (simp add: update_noun_type_cases)
  have c: "update_noun_type THING LOCATION = (LOCATION, [])"
    "update_noun_type THING CHARACTER = (CHARACTER, [])"
    "update_noun_type LOCATION CHARACTER = (CHARACTER, [])"
    "update_noun_type CHARACTER LOCATION = (CHARACTER, [CharacterInLocationContext])"
    by (simp_all add: update_noun_type_def)
  have d: "is_known_character P n \<longrightarrow>
        is_known_character (fst (update_presence P p)) n
        \<and> is_known_character (foldl (\<lambda>P p. fst (update_presence P p)) P ps) n"
    using update_presence_keeps_character fold_update_presence_keeps_character by blast
  have e: "is_known_character P (p_name p) \<and> p_noun_type p = LOCATION \<longrightarrow>
        snd (update_presence P p) = [CharacterInLocationContext]
        \<and> (\<forall>m. map_option ns_noun_type (map_of (presence_ns (fst (update_presence P p))) m)
                 = map_option ns_noun_type (map_of (presence_ns P) m))"
    using update_presence_rejected by blast
  have f: "update_presence_and_interactions_for_lines mode tok st ls fl ll sid loc pt
             = Inr (found, st')
        \<and> is_known_character (xP st) n \<longrightarrow> is_known_character (xP st') n"
    using for_lines_keeps by blast
  have g: "update_presence_and_interactions_for_dialog mode tok st ls sid loc blk = Inr st'
        \<and> is_known_character (xP st) n \<longrightarrow> is_known_character (xP st') n"
    using for_dialog_keeps by blast
  have h: "pass1_scenes mode tok ls scs st = Inr st' \<and> is_known_character (xP st) n \<longrightarrow>
        is_known_character (xP st') n"
    using pass1_scenes_keeps by blast
  have i: "pass2_scenes mode tok ls scs prior st = Inr st' \<and> is_known_character (xP st) n \<longrightarrow>
        is_known_character (xP st') n"
    using pass2_scenes_keeps by blast
  have j: "pass1_scenes mode tok ls (sort_key fst (st_scenes script))
          \<lparr> xP = new_Presences, xI = new_Interactions, xlog = [] \<rparr> = Inr st
        \<and> is_known_character (xP st) n
        \<and> compute_presence_and_interactions mode tok ls script pm = Inr (P', I, msgs) \<longrightarrow>
        is_known_character P' n"
    using compute_keeps by blast
  show ?thesis
    by (intro conjI a b c d e f g h i j)
qed

theorem noun_type_promotion_monotonic_witness:
  "is_known_character
     (fst (update_presence new_Presences (get_presence (''JOHN'', CHARACTER) DISCUSS 1 1 3))) ''JOHN''
   \<and> p_noun_type (get_presence (''JOHN'', LOCATION) SETTING 2 1 9) = LOCATION
   \<and> snd (update_presence
        (fst (update_presence new_Presences (get_presence (''JOHN'', CHARACTER) DISCUSS 1 1 3)))
        (get_presence (''JOHN'', LOCATION) SETTING 2 1 9)) = [CharacterInLocationContext]
   \<and> is_known_character
       (fst (update_presence
          (fst (update_presence new_Presences (get_presence (''JOHN'', CHARACTER) DISCUSS 1 1 3)))
          (get_presence (''JOHN'', LOCATION) SETTING 2 1 9))) ''JOHN''
   \<and> fst (update_noun_type CHARACTER LOCATION) = CHARACTER"
proof -
  define P where "P = fst (update_presence new_Presences (get_presence (''JOHN'', CHARACTER) DISCUSS 1 1 3))"
  define p where "p = get_presence (''JOHN'', LOCATION) SETTING 2 1 9"
  have h1: "is_known_character P ''JOHN''" unfolding P_def by code_simp
  have h2: "p_noun_type p = LOCATION" by (simp add: p_def get_presence_def)
  have h3: "p_name p = ''JOHN''" by (simp add: p_def get_presence_def)
  note r = noun_type_promotion_monotonic[of CHARACTER LOCATION P "''JOHN''" p "[]"]
  note r6 = r[THEN conjunct2, THEN conjunct2, THEN conjunct2, THEN conjunct2, THEN conjunct2,
      THEN conjunct1]
  note r7 = r[THEN conjunct2, THEN conjunct2, THEN conjunct2, THEN conjunct2, THEN conjunct2,
      THEN conjunct2, THEN conjunct1]
  note r8 = r[THEN conjunct2, THEN conjunct2, THEN conjunct2, THEN conjunct2, THEN conjunct2,
      THEN conjunct2, THEN conjunct2, THEN conjunct1]
  have k: "is_known_character (fst (update_presence P p)) ''JOHN''"
    using r7 h1 by blast
  have "is_known_character P (p_name p) \<and> p_noun_type p = LOCATION"
    using h1 h2 h3 by simp
  with r8 have m: "snd (update_presence P p) = [CharacterInLocationContext]"
    by blast
  have t: "fst (update_noun_type CHARACTER LOCATION) = CHARACTER"
    unfolding r6 by simp
  from h1 h2 m k t show ?thesis unfolding P_def p_def by (intro conjI)
qed

section \<open>Runs of the pipeline\<close>

text \<open>
  Claim C1 fails on the code: \<open>update_interaction\<close> compares no names, and only the
  \<open>DISCUSS\<close> loops skip a pair of equal names.  In the three runs below the interactions
  whose participants have the same name are listed.  The action line \<open>"AL AL"\<close> holds the
  known name \<open>AL\<close> twice in one sentence, and the pair of the two presences is recorded
  (pairwise linking).  The action line \<open>"BAR"\<close> holds the name of the scene location, and
  the found presence is linked to the location (\<open>SETTING\<close> linking).  The speaker \<open>MARY\<close>
  says her own name, and the mention is linked to the speaker.
\<close>

theorem self_interactions_recorded:
  "(case extraction_pipeline STRICT one_sentence
           (numbered_from 1 [''INT. BAR'', '''', ''AL AL'', '''', '' AL'']) of
      Inl e \<Rightarrow> []
    | Inr (script, P, I, msgs) \<Rightarrow>
        map (\<lambda>x. (map_option p_name (i_a x), p_name (i_b x), i_type x))
          (filter (\<lambda>x. map_option p_name (i_a x) = Some (p_name (i_b x))) (interactions I)))
   = [(Some ''AL'', ''AL'', APPEAR)]
   \<and> (case extraction_pipeline STRICT one_sentence
           (numbered_from 1 [''INT. BAR'', '''', ''BAR'']) of
      Inl e \<Rightarrow> []
    | Inr (script, P, I, msgs) \<Rightarrow>
        map (\<lambda>x. (map_option p_name (i_a x), p_name (i_b x), i_type x))
          (filter (\<lambda>x. map_option p_name (i_a x) = Some (p_name (i_b x))) (interactions I)))
   = [(Some ''BAR'', ''BAR'', SETTING)]
   \<and> (case extraction_pipeline STRICT one_sentence
           (numbered_from 1 [''INT. ROOM'', '''', '' MARY'', '' I am Mary.'']) of
      Inl e \<Rightarrow> []
    | Inr (script, P, I, msgs) \<Rightarrow>
        map (\<lambda>x. (map_option p_name (i_a x), p_name (i_b x), i_type x))
          (filter (\<lambda>x. map_option p_name (i_a x) = Some (p_name (i_b x))) (interactions I)))
   = [(Some ''MARY'', ''MARY'', MENTION)]"
proof (intro conjI)
  show "(case extraction_pipeline STRICT one_sentence
           (numbered_from 1 [''INT. BAR'', '''', ''AL AL'', '''', '' AL'']) of
      Inl e \<Rightarrow> []
    | Inr (script, P, I, msgs) \<Rightarrow>
        map (\<lambda>x. (map_option p_name (i_a x), p_name (i_b x), i_type x))
          (filter (\<lambda>x. map_option p_name (i_a x) = Some (p_name (i_b x))) (interactions I)))
   = [(Some ''AL'', ''AL'', APPEAR)]"
    by code_simp
  show "(case extraction_pipeline STRICT one_sentence
           (numbered_from 1 [''INT. BAR'', '''', ''BAR'']) of
      Inl e \<Rightarrow> []
    | Inr (script, P, I, msgs) \<Rightarrow>
        map (\<lambda>x. (map_option p_name (i_a x), p_name (i_b x), i_type x))
          (filter (\<lambda>x. map_option p_name (i_a x) = Some (p_name (i_b x))) (interactions I)))
   = [(Some ''BAR'', ''BAR'', SETTING)]"
    by code_simp
  show "(case extraction_pipeline STRICT one_sentence
           (numbered_from 1 [''INT. ROOM'', '''', '' MARY'', '' I am Mary.'']) of
      Inl e \<Rightarrow> []
    | Inr (script, P, I, msgs) \<Rightarrow>
        map (\<lambda>x. (map_option p_name (i_a x), p_name (i_b x), i_type x))
          (filter (\<lambda>x. map_option p_name (i_a x) = Some (p_name (i_b x))) (interactions I)))
   = [(Some ''MARY'', ''MARY'', MENTION)]"
    by code_simp
qed

text \<open>
  Claim C2 fails on the code: both runs below pass the segmenter and end in an exception
  of the extraction engine.  In the first the heading of the first scene names \<open>JOHN\<close>,
  who speaks in the scene: pass 2 rejects the heading, falls back on the prior scene
  location, which is still \<open>{}\<close>, and the link of the name found in the action line to
  that location raises \<open>KeyError\<close>.  In the second the contents hold no newline, the
  offset table of the action line is empty, and the fallback of \<open>get_line_for_offset\<close>
  raises \<open>IndexError\<close>.
\<close>

theorem pipeline_raises:
  "(case parse_script_lines STRICT
           (numbered_from 1 [''INT. JOHN'', '''', ''JOHN waves.'', '''', '' JOHN'']) of
      Inl e \<Rightarrow> False | Inr r \<Rightarrow> True)
   \<and> extraction_pipeline STRICT one_sentence
        (numbered_from 1 [''INT. JOHN'', '''', ''JOHN waves.'', '''', '' JOHN'']) = Inl KeyError
   \<and> (case parse_script_lines STRICT
           [\<lparr> l_content = ''INT. KITCHEN'', l_line_no = 1, l_page_no = 1 \<rparr>,
            \<lparr> l_content = '''', l_line_no = 2, l_page_no = 1 \<rparr>,
            \<lparr> l_content = ''The KITCHEN is dark.'', l_line_no = 3, l_page_no = 1 \<rparr>] of
      Inl e \<Rightarrow> False | Inr r \<Rightarrow> True)
   \<and> extraction_pipeline STRICT one_sentence
        [\<lparr> l_content = ''INT. KITCHEN'', l_line_no = 1, l_page_no = 1 \<rparr>,
         \<lparr> l_content = '''', l_line_no = 2, l_page_no = 1 \<rparr>,
         \<lparr> l_content = ''The KITCHEN is dark.'', l_line_no = 3, l_page_no = 1 \<rparr>]
       = Inl IndexError"
proof (intro conjI)
  show "(case parse_script_lines STRICT
           (numbered_from 1 [''INT. JOHN'', '''', ''JOHN waves.'', '''', '' JOHN'']) of
      Inl e \<Rightarrow> False | Inr r \<Rightarrow> True)"
    by code_simp
  show "extraction_pipeline STRICT one_sentence
        (numbered_from 1 [''INT. JOHN'', '''', ''JOHN waves.'', '''', '' JOHN'']) = Inl KeyError"
    by code_simp
  show "(case parse_script_lines STRICT
           [\<lparr> l_content = ''INT. KITCHEN'', l_line_no = 1, l_page_no = 1 \<rparr>,
            \<lparr> l_content = '''', l_line_no = 2, l_page_no = 1 \<rparr>,
            \<lparr> l_content = ''The KITCHEN is dark.'', l_line_no = 3, l_page_no = 1 \<rparr>] of
      Inl e \<Rightarrow> False | Inr r \<Rightarrow> True)"
    by code_simp
  show "extraction_pipeline STRICT one_sentence
        [\<lparr> l_content = ''INT. KITCHEN'', l_line_no = 1, l_page_no = 1 \<rparr>,
         \<lparr> l_content = '''', l_line_no = 2, l_page_no = 1 \<rparr>,
         \<lparr> l_content = ''The KITCHEN is dark.'', l_line_no = 3, l_page_no = 1 \<rparr>]
       = Inl IndexError"
    by code_simp
qed

section \<open>The offset mapper on its table\<close>

lemma first_line_after_Some:
  "first_line_after tab pos = Some l \<Longrightarrow> sorted_wrt (<) (map snd tab) \<Longrightarrow>
   (\<exists>off. (off, l) \<in> set tab \<and> pos < off)
   \<and> (\<forall>(off', l') \<in> set tab. pos < off' \<longrightarrow> l \<le> l')"
proof (induction tab)
  case Nil
  then show ?case by simp
next
  case (Cons e tab)
  obtain off0 l0 where e: "e = (off0, l0)" by (cases e)
  show ?case
  proof (cases "pos < off0")
    case True
    with Cons.prems e have "l = l0" by simp
    moreover have "\<forall>(off', l') \<in> set tab. l0 \<le> l'"
      using Cons.prems(2) e by (auto simp: less_imp_le)
    ultimately show ?thesis using True e by auto
  next
    case False
    with Cons.prems e have "first_line_after tab pos = Some l" "sorted_wrt (<) (map snd tab)"
      by simp_all
    from Cons.IH[OF this] show ?thesis using False e by auto
  qed
qed

lemma first_line_after_None:
  "first_line_after tab pos = None \<longleftrightarrow> (\<forall>(off, l) \<in> set tab. \<not> pos < off)"
  by (induction tab) (auto split: if_splits)

lemma line_offsets_loop_lines:
  "map snd (line_offsets_loop tot fl k ls) = map (\<lambda>i. fl + int i) [k ..< k + length ls]"
proof (induction ls arbitrary: tot k)
  case Nil
  then show ?case by simp
next
  case (Cons l ls)
  have u: "[k ..< k + length (l # ls)] = k # [Suc k ..< Suc k + length ls]"
    using upt_conv_Cons[of k "k + length (l # ls)"] by simp
  have "map snd (line_offsets_loop tot fl k (l # ls))
        = (fl + int k) # map snd (line_offsets_loop (tot + (length l + 1)) fl (Suc k) ls)"
    by (simp add: Let_def)
  also have "\<dots> = (fl + int k) # map (\<lambda>i. fl + int i) [Suc k ..< Suc k + length ls]"
    using Cons.IH[of "tot + (length l + 1)" "Suc k"] by simp
  finally show ?case unfolding u by simp
qed

lemma butlast_upt_0: "butlast [0 ..< n] = [0 ..< n - 1]"
  by (cases n) simp_all

lemma get_line_offsets_lines:
  "map snd (get_line_offsets t fl) = map (\<lambda>i. fl + int i) [0 ..< length (split_nl t) - 1]"
proof -
  have "map snd (get_line_offsets t fl) = butlast (map snd (line_offsets_loop 0 fl 0 (split_nl t)))"
    by (simp add: get_line_offsets_def map_butlast)
  also have "\<dots> = butlast (map (\<lambda>i. fl + int i) [0 ..< length (split_nl t)])"
    by (simp add: line_offsets_loop_lines)
  also have "\<dots> = map (\<lambda>i. fl + int i) (butlast [0 ..< length (split_nl t)])"
    by (simp add: map_butlast)
  finally show ?thesis unfolding butlast_upt_0 .
qed

lemma get_line_offsets_sorted: "sorted_wrt (<) (map snd (get_line_offsets t fl))"
  unfolding get_line_offsets_lines
  by (simp add: sorted_wrt_map sorted_wrt_iff_nth_less)

lemma get_line_offsets_first:
  "get_line_offsets t fl \<noteq> [] \<Longrightarrow> snd (hd (get_line_offsets t fl)) = fl"
proof -
  assume ne: "get_line_offsets t fl \<noteq> []"
  then have "map snd (get_line_offsets t fl) \<noteq> []" by simp
  then have n: "0 < length (split_nl t) - 1"
    unfolding get_line_offsets_lines by simp
  have "snd (hd (get_line_offsets t fl)) = hd (map snd (get_line_offsets t fl))"
    using ne by (simp add: hd_map)
  also have "\<dots> = fl"
    unfolding get_line_offsets_lines using n by (simp add: hd_map upt_conv_Cons)
  finally show ?thesis .
qed

lemma offset_lookup_on_table:
  "(get_line_for_offset (get_line_offsets t fl) pos = ([], Inr l) \<longrightarrow>
      (\<exists>off. (off, l) \<in> set (get_line_offsets t fl) \<and> pos < off)
      \<and> (\<forall>(off', l') \<in> set (get_line_offsets t fl). pos < off' \<longrightarrow> l \<le> l'))
   \<and> ((\<forall>(off, l) \<in> set (get_line_offsets t fl). \<not> pos < off)
        \<and> get_line_offsets t fl \<noteq> [] \<longrightarrow>
      get_line_for_offset (get_line_offsets t fl) pos
        = ([PositionNotFound (int pos) (get_line_offsets t fl)], Inr fl))"
proof (intro conjI impI)
  assume a: "get_line_for_offset (get_line_offsets t fl) pos = ([], Inr l)"
  then have "first_line_after (get_line_offsets t fl) pos = Some l"
    by (auto simp: get_line_for_offset_def split: option.splits)
  from first_line_after_Some[OF this get_line_offsets_sorted]
  show "\<exists>off. (off, l) \<in> set (get_line_offsets t fl) \<and> pos < off"
    and "\<forall>(off', l') \<in> set (get_line_offsets t fl). pos < off' \<longrightarrow> l \<le> l'"
    by blast+
next
  assume a: "(\<forall>(off, l) \<in> set (get_line_offsets t fl). \<not> pos < off)
        \<and> get_line_offsets t fl \<noteq> []"
  then have n: "first_line_after (get_line_offsets t fl) pos = None"
    by (simp add: first_line_after_None)
  from a obtain e rest where e: "get_line_offsets t fl = e # rest"
    by (cases "get_line_offsets t fl") auto
  have "snd e = fl" using get_line_offsets_first[of t fl] e by simp
  then show "get_line_for_offset (get_line_offsets t fl) pos
        = ([PositionNotFound (int pos) (get_line_offsets t fl)], Inr fl)"
    using n e by (simp add: get_line_for_offset_def py_index_def)
qed

text \<open>
  Claim C8 fails on the code where no entry of the table exceeds the offset and the table
  is empty: for the text of a line without a newline the table is empty, the loop finds
  no line for the offset 4 of the name, and the fallback raises \<open>IndexError\<close> and does not
  return the first line 3 of the range.
\<close>

theorem offset_fallback_raises:
  "get_line_offsets ''The KITCHEN is dark.'' 3 = []
   \<and> first_line_after (get_line_offsets ''The KITCHEN is dark.'' 3) 4 = None
   \<and> snd (get_line_for_offset (get_line_offsets ''The KITCHEN is dark.'' 3) 4) = Inl IndexError
   \<and> snd (get_line_for_offset (get_line_offsets ''The KITCHEN is dark.'' 3) 4) \<noteq> Inr 3"
  by code_simp

end
